theory Spec2Isabelle
  imports Complex_Main "HOL-Library.Multiset"
begin

section \<open>Strings of the host language\<close>

text \<open>
  A string is a list of code units. The model covers the code units 0 to 255 (the
  Latin-1 block), which is what \<^typ>\<open>char\<close> holds; on that block the white space
  that \<^verbatim>\<open>String.prototype.trim\<close> strips is TAB, LF, VT, FF, CR, SPACE and NBSP.
\<close>

definition is_ws :: "char \<Rightarrow> bool" where
  "is_ws c = (of_char c \<in> {9, 10, 11, 12, 13, 32, 160 :: nat})"

definition trim :: "string \<Rightarrow> string" where
  "trim s = rev (dropWhile is_ws (rev (dropWhile is_ws s)))"

text \<open>\<^verbatim>\<open>Number.prototype.toString\<close> on a natural number: its decimal digits.\<close>

definition digit_char :: "nat \<Rightarrow> char" where
  "digit_char d = ''0123456789'' ! d"

fun toString :: "nat \<Rightarrow> string" where
  "toString n =
     (if n < 10 then [digit_char n] else toString (n div 10) @ [digit_char (n mod 10)])"

declare toString.simps [simp del]

section \<open>Data model\<close>

text \<open>
  The \<^verbatim>\<open>Incident\<close> interface of the timeline and of the legal tools. The optional
  \<open>location\<close> is the empty string when it is absent: every reader of the field
  tests it for truth, which the absent and the empty location fail alike.
\<close>

record Incident =
  id_str :: string
  timestamp :: string
  category :: string
  severity :: int
  location :: string
  transcript :: string
  peopleInvolved :: "string list"

text \<open>The \<^verbatim>\<open>VoiceRecordingState\<close> interface of the recording page.\<close>

record VoiceRecordingState =
  isRecording :: bool
  isPaused :: bool
  transcript :: string
  category :: string
  severity :: int
  peopleInvolved :: "string list"
  location :: string
  timestamp :: string

text \<open>
  The keys of \<^verbatim>\<open>localStorage\<close> that the recording page, the timeline, the legal
  tools and the settings page use. A key is absent (\<open>None\<close>) or holds the
  serialisation of a value of its type.
\<close>

record localStorage =
  childfirst_incidents :: "Incident list option"
  childfirst_settings :: "(string \<rightharpoonup> string) option"
  childfirst_last_backup :: "string option"

text \<open>A toast: title, description, and whether its variant is \<^verbatim>\<open>destructive\<close>.\<close>

record toast =
  title :: string
  description :: string
  destructive :: bool

section \<open>The recording page\<close>

datatype recorder_state = Inactive | Capturing | Suspended

text \<open>A \<^verbatim>\<open>MediaRecorder\<close>: its state and the audio stream it was built on.\<close>

record MediaRecorder =
  rec_state :: recorder_state
  stream :: nat

text \<open>
  The component: its React state and refs, the toasts it has shown, and the devices
  behind the refs. \<open>recognitionRef\<close> is \<open>None\<close> where the browser has no speech
  recognition, otherwise it tells whether the recognizer is started. \<open>liveStreams\<close>
  are the audio streams obtained from the microphone whose tracks have not been
  stopped; \<open>intervals\<close> are the running timers; \<open>nextHandle\<close> numbers the next
  stream or timer.
\<close>

record VoiceRecording =
  state :: VoiceRecordingState
  recordingTime :: nat
  isListening :: bool
  mediaRecorderRef :: "MediaRecorder option"
  recognitionRef :: "bool option"
  timerRef :: "nat option"
  toasts :: "toast list"
  liveStreams :: "nat list"
  intervals :: "nat list"
  nextHandle :: nat

definition initialState :: VoiceRecordingState where
  "initialState =
     \<lparr>isRecording = False, isPaused = False, transcript = '''', category = '''',
      severity = 3, peopleInvolved = [], location = '''', timestamp = ''''\<rparr>"

definition show_toast :: "toast \<Rightarrow> VoiceRecording \<Rightarrow> VoiceRecording" where
  "show_toast t c = c\<lparr>toasts := toasts c @ [t]\<rparr>"

definition recording_stopped :: toast where
  "recording_stopped =
     \<lparr>title = ''Recording stopped'',
      description = ''Review and save your incident report.'', destructive = False\<rparr>"

definition missing_information :: toast where
  "missing_information =
     \<lparr>title = ''Missing information'',
      description = ''Please add a transcript and select a category.'',
      destructive = True\<rparr>"

definition incident_saved :: toast where
  "incident_saved =
     \<lparr>title = ''Incident saved'',
      description = ''Your documentation has been securely stored.'',
      destructive = False\<rparr>"

text \<open>
  \<^verbatim>\<open>stopRecording\<close>: stops the recorder and the tracks of its stream when the ref is
  set, stops the recognizer when there is one, clears the timer when the ref is set,
  and leaves the flags off. By the MediaStream Recording specification \<^verbatim>\<open>stop()\<close>
  on an inactive recorder does nothing, and by the Web Speech API \<^verbatim>\<open>stop()\<close> on a
  recognizer that is not started is ignored. The refs are never set back to
  \<^verbatim>\<open>null\<close>.
\<close>

definition stopRecording :: "VoiceRecording \<Rightarrow> VoiceRecording" where
  "stopRecording c =
     (let c1 = (case mediaRecorderRef c of
                  None \<Rightarrow> c
                | Some r \<Rightarrow>
                    c\<lparr>mediaRecorderRef := Some (r\<lparr>rec_state := Inactive\<rparr>),
                      liveStreams := removeAll (stream r) (liveStreams c)\<rparr>);
          c2 = (case recognitionRef c1 of
                  None \<Rightarrow> c1
                | Some _ \<Rightarrow> c1\<lparr>recognitionRef := Some False, isListening := False\<rparr>);
          c3 = (case timerRef c2 of
                  None \<Rightarrow> c2
                | Some t \<Rightarrow> c2\<lparr>intervals := removeAll t (intervals c2)\<rparr>);
          c4 = c3\<lparr>state := (state c3)\<lparr>isRecording := False, isPaused := False\<rparr>\<rparr>
      in show_toast recording_stopped c4)"

definition resetRecording :: "VoiceRecording \<Rightarrow> VoiceRecording" where
  "resetRecording c = (stopRecording c)\<lparr>state := initialState, recordingTime := 0\<rparr>"

text \<open>
  \<^verbatim>\<open>saveIncident\<close>, given the clock (\<^verbatim>\<open>Date.now()\<close>, in milliseconds) and its
  rendering \<^verbatim>\<open>new Date().toISOString()\<close>. It returns the component and the storage
  after the call.
\<close>

definition saveIncident ::
  "nat \<Rightarrow> string \<Rightarrow> VoiceRecording \<Rightarrow> localStorage \<Rightarrow> VoiceRecording \<times> localStorage" where
  "saveIncident now nowISO c ls =
     (let st = state c in
      if trim (transcript st) = [] \<or> category st = []
      then (show_toast missing_information c, ls)
      else
        let incident =
              \<lparr>id_str = toString now,
               Incident.timestamp = (if timestamp st = [] then nowISO else timestamp st),
               Incident.category = category st,
               Incident.severity = severity st,
               Incident.location = location st,
               Incident.transcript = trim (transcript st),
               Incident.peopleInvolved = peopleInvolved st\<rparr>;
            existingIncidents =
              (case childfirst_incidents ls of None \<Rightarrow> [] | Some xs \<Rightarrow> xs);
            ls' = ls\<lparr>childfirst_incidents := Some (existingIncidents @ [incident])\<rparr>
        in (resetRecording (show_toast incident_saved c), ls'))"

text \<open>What the page and the timeline read back from the storage: the stored list.\<close>

definition stored_incidents :: "localStorage \<Rightarrow> Incident list" where
  "stored_incidents ls = (case childfirst_incidents ls of None \<Rightarrow> [] | Some xs \<Rightarrow> xs)"

subsection \<open>Starting and pausing\<close>

definition recording_started :: toast where
  "recording_started =
     \<lparr>title = ''Recording started'',
      description = ''Speak clearly for best transcription results.'',
      destructive = False\<rparr>"

definition recording_failed :: toast where
  "recording_failed =
     \<lparr>title = ''Recording failed'',
      description = ''Please check microphone permissions.'', destructive = True\<rparr>"

text \<open>\<^verbatim>\<open>setInterval\<close>: a new running timer, whose handle goes into \<open>timerRef\<close>.\<close>

definition setInterval :: "VoiceRecording \<Rightarrow> VoiceRecording" where
  "setInterval c =
     c\<lparr>timerRef := Some (nextHandle c), intervals := intervals c @ [nextHandle c],
       nextHandle := Suc (nextHandle c)\<rparr>"

text \<open>
  \<^verbatim>\<open>startRecording\<close> is asynchronous: it waits for \<^verbatim>\<open>getUserMedia\<close> and then for
  \<^verbatim>\<open>getCurrentLocation\<close>, and other handlers can run while it waits. It is given
  here in the pieces between its waits. The function does not look at the state of
  the page.

  The first piece runs when \<^verbatim>\<open>getUserMedia\<close> has granted a stream: the stream is
  live, and a new recorder on it goes into \<open>mediaRecorderRef\<close>.
\<close>

definition after_getUserMedia :: "VoiceRecording \<Rightarrow> VoiceRecording" where
  "after_getUserMedia c =
     c\<lparr>liveStreams := liveStreams c @ [nextHandle c],
       mediaRecorderRef := Some \<lparr>rec_state = Inactive, stream = nextHandle c\<rparr>,
       nextHandle := Suc (nextHandle c)\<rparr>"

text \<open>
  The second piece runs when \<^verbatim>\<open>getCurrentLocation\<close> has resolved, with the location
  and the clock as an ISO string. All of it is inside \<^verbatim>\<open>try\<close>: a recognizer that
  is already started refuses \<^verbatim>\<open>start()\<close> with an \<^verbatim>\<open>InvalidStateError\<close>, and so does
  a recorder that is not inactive (reading \<^verbatim>\<open>start\<close> of an empty ref is a
  \<^verbatim>\<open>TypeError\<close>); the \<^verbatim>\<open>catch\<close> turns each into the toast "Recording failed",
  with what was done before it left as it is. The recorder that is started is the one
  the ref holds at that moment.
\<close>

definition after_getCurrentLocation ::
  "string \<Rightarrow> string \<Rightarrow> VoiceRecording \<Rightarrow> VoiceRecording" where
  "after_getCurrentLocation loc nowISO c =
     (let c2 = c\<lparr>state := (state c)\<lparr>isRecording := True, isPaused := False,
                    location := loc, timestamp := nowISO\<rparr>\<rparr>
      in case recognitionRef c2 of
           Some True \<Rightarrow> show_toast recording_failed c2
         | started \<Rightarrow>
             let c3 = (case started of
                         None \<Rightarrow> c2
                       | Some _ \<Rightarrow> c2\<lparr>recognitionRef := Some True, isListening := True\<rparr>);
                 c4 = setInterval (c3\<lparr>recordingTime := 0\<rparr>)
             in case mediaRecorderRef c4 of
                  None \<Rightarrow> show_toast recording_failed c4
                | Some r \<Rightarrow>
                    if rec_state r = Inactive
                    then show_toast recording_started
                           (c4\<lparr>mediaRecorderRef := Some (r\<lparr>rec_state := Capturing\<rparr>)\<rparr>)
                    else show_toast recording_failed c4)"

text \<open>
  \<^verbatim>\<open>startRecording\<close> when nothing else runs during its waits, given whether
  \<^verbatim>\<open>getUserMedia\<close> grants the microphone: a refusal is caught and shown as
  "Recording failed".
\<close>

definition startRecording :: "bool \<Rightarrow> string \<Rightarrow> string \<Rightarrow> VoiceRecording \<Rightarrow> VoiceRecording" where
  "startRecording mic loc nowISO c =
     (if \<not> mic then show_toast recording_failed c
      else after_getCurrentLocation loc nowISO (after_getUserMedia c))"

text \<open>
  \<^verbatim>\<open>pauseRecording\<close>. An inactive recorder refuses \<^verbatim>\<open>pause()\<close> and \<^verbatim>\<open>resume()\<close>,
  and a started recognizer refuses \<^verbatim>\<open>start()\<close>; nothing catches these errors, so the
  handler ends there, with what it has done so far.
\<close>

definition pauseRecording :: "VoiceRecording \<Rightarrow> VoiceRecording" where
  "pauseRecording c =
     (case mediaRecorderRef c of
        None \<Rightarrow> c
      | Some r \<Rightarrow>
          if \<not> isRecording (state c) then c
          else if rec_state r = Inactive then c
          else if isPaused (state c) then
            (let c1 = c\<lparr>mediaRecorderRef := Some (r\<lparr>rec_state := Capturing\<rparr>)\<rparr>
             in case recognitionRef c1 of
                  Some True \<Rightarrow> c1
                | started \<Rightarrow>
                    let c2 = (case started of
                                None \<Rightarrow> c1
                              | Some _ \<Rightarrow>
                                  c1\<lparr>recognitionRef := Some True, isListening := True\<rparr>);
                        c3 = (case timerRef c2 of None \<Rightarrow> c2 | Some _ \<Rightarrow> setInterval c2)
                    in c3\<lparr>state := (state c3)\<lparr>isPaused := \<not> isPaused (state c3)\<rparr>\<rparr>)
          else
            (let c1 = c\<lparr>mediaRecorderRef := Some (r\<lparr>rec_state := Suspended\<rparr>)\<rparr>;
                 c2 = (case recognitionRef c1 of
                         None \<Rightarrow> c1
                       | Some _ \<Rightarrow> c1\<lparr>recognitionRef := Some False, isListening := False\<rparr>);
                 c3 = (case timerRef c2 of
                         None \<Rightarrow> c2
                       | Some t \<Rightarrow> c2\<lparr>intervals := removeAll t (intervals c2)\<rparr>)
             in c3\<lparr>state := (state c3)\<lparr>isPaused := \<not> isPaused (state c3)\<rparr>\<rparr>))"

subsection \<open>The controls of the page\<close>

text \<open>The categories of the select box and the people of the toggle buttons.\<close>

definition categories :: "string list" where
  "categories =
     [''Meltdown'', ''School Refusal'', ''Family Conflict'', ''Sensory Overload'',
      ''Anxiety Episode'', ''Positive Behavior'', ''Breakthrough Moment'',
      ''Therapy Session'', ''Medical Appointment'', ''Other'']"

definition commonPeople :: "string list" where
  "commonPeople =
     [''Child'', ''Parent/Guardian'', ''Sibling'', ''Teacher'', ''Therapist'', ''Doctor'',
      ''Friend'', ''Extended Family'', ''Other Adult'']"

definition setState ::
  "(VoiceRecordingState \<Rightarrow> VoiceRecordingState) \<Rightarrow> VoiceRecording \<Rightarrow> VoiceRecording" where
  "setState f c = c\<lparr>state := f (state c)\<rparr>"

text \<open>
  The page as mounted: the initial state, no recorder, no timer, and a recognizer
  when the browser has one.
\<close>

definition mounted :: "bool \<Rightarrow> VoiceRecording" where
  "mounted speech =
     \<lparr>state = initialState, recordingTime = 0, isListening = False,
      mediaRecorderRef = None,
      recognitionRef = (if speech then Some False else None), timerRef = None,
      toasts = [], liveStreams = [], intervals = [], nextHandle = 0\<rparr>"

text \<open>
  The browser around the page: the page that is mounted, the storage, and what is
  still under way. \<open>awaitingMicrophone\<close> and \<open>awaitingLocation\<close> count the calls
  of \<^verbatim>\<open>startRecording\<close> of the mounted page that stand at their first and at their
  second wait. The \<open>stray\<close> fields hold what pages that have since been unmounted
  have left running: their calls of \<^verbatim>\<open>startRecording\<close> at either wait, and their
  timers.
\<close>

record browser =
  page :: VoiceRecording
  storage :: localStorage
  awaitingMicrophone :: nat
  awaitingLocation :: nat
  strayMicrophone :: nat
  strayLocation :: nat
  strayIntervals :: "nat list"

definition opened :: "bool \<Rightarrow> localStorage \<Rightarrow> browser" where
  "opened speech ls =
     \<lparr>page = mounted speech, storage = ls, awaitingMicrophone = 0, awaitingLocation = 0,
      strayMicrophone = 0, strayLocation = 0, strayIntervals = []\<rparr>"

text \<open>
  What the caregiver, the devices, the recognizer and the timer can do. The round
  button stops while the page is recording and otherwise calls \<^verbatim>\<open>startRecording\<close>,
  whose two waits end with an answer of the microphone and of the location; the
  pause button exists while recording, Reset is disabled while recording, Save is
  disabled while recording or while \<^verbatim>\<open>saveIncident\<close> would refuse, and the slider has
  \<^verbatim>\<open>min={1} max={5} step={1}\<close>. \<open>Remount\<close> is leaving the page and coming back.
\<close>

datatype event =
    ClickRecord
  | MicrophoneAnswer bool
  | LocationAnswer string string
  | ClickPause
  | ClickReset
  | ClickSave nat string
  | SlideSeverity int
  | EditTranscript string
  | SelectCategory string
  | TogglePerson string
  | RecognitionResult string
  | RecognitionError
  | RecognitionEnd
  | Tick
  | Remount
  | StrayMicrophoneAnswer bool
  | StrayLocationAnswer bool bool

text \<open>
  Unmounting runs the cleanup of the effect, which clears the timer of \<open>timerRef\<close>
  and nothing else: the tracks of a live stream are not stopped, and calls of
  \<^verbatim>\<open>startRecording\<close> that are waiting go on. The page mounted afterwards has the
  initial state and empty refs. The toasts, the live streams and the numbering of
  handles belong to the browser and stay.
\<close>

definition remount :: "browser \<Rightarrow> browser" where
  "remount b =
     (let c = page b;
          left_running = (case timerRef c of
                            None \<Rightarrow> intervals c
                          | Some t \<Rightarrow> removeAll t (intervals c))
      in b\<lparr>page := (mounted (recognitionRef c \<noteq> None))
                      \<lparr>toasts := toasts c, liveStreams := liveStreams c,
                       nextHandle := nextHandle c\<rparr>,
            strayIntervals := strayIntervals b @ left_running,
            strayMicrophone := strayMicrophone b + awaitingMicrophone b,
            strayLocation := strayLocation b + awaitingLocation b,
            awaitingMicrophone := 0,
            awaitingLocation := 0\<rparr>)"

text \<open>
  One event; \<open>None\<close> when the control is disabled or not rendered, when it cannot
  deliver that value, or when nothing is waiting for that answer. A call of a page
  that is gone works on the refs and the state of that page, so of its answers only
  this is kept: a granted microphone is one more live stream, and the second piece
  may or may not get as far as its timer (the first flag) and ends in one of the two
  toasts (the second flag: started).
\<close>

fun handle :: "event \<Rightarrow> browser \<Rightarrow> browser option" where
  "handle ClickRecord b =
     Some (if isRecording (state (page b)) then b\<lparr>page := stopRecording (page b)\<rparr>
           else b\<lparr>awaitingMicrophone := Suc (awaitingMicrophone b)\<rparr>)"
| "handle (MicrophoneAnswer granted) b =
     (if awaitingMicrophone b = 0 then None
      else Some (if granted
                 then b\<lparr>page := after_getUserMedia (page b),
                        awaitingMicrophone := awaitingMicrophone b - 1,
                        awaitingLocation := Suc (awaitingLocation b)\<rparr>
                 else b\<lparr>page := show_toast recording_failed (page b),
                        awaitingMicrophone := awaitingMicrophone b - 1\<rparr>))"
| "handle (LocationAnswer loc nowISO) b =
     (if awaitingLocation b = 0 then None
      else Some (b\<lparr>page := after_getCurrentLocation loc nowISO (page b),
                   awaitingLocation := awaitingLocation b - 1\<rparr>))"
| "handle ClickPause b =
     (if isRecording (state (page b)) then Some (b\<lparr>page := pauseRecording (page b)\<rparr>)
      else None)"
| "handle ClickReset b =
     (if isRecording (state (page b)) then None
      else Some (b\<lparr>page := resetRecording (page b)\<rparr>))"
| "handle (ClickSave now nowISO) b =
     (if trim (transcript (state (page b))) = [] \<or> category (state (page b)) = []
         \<or> isRecording (state (page b))
      then None
      else Some (b\<lparr>page := fst (saveIncident now nowISO (page b) (storage b)),
                   storage := snd (saveIncident now nowISO (page b) (storage b))\<rparr>))"
| "handle (SlideSeverity v) b =
     (if 1 \<le> v \<and> v \<le> 5
      then Some (b\<lparr>page := setState (\<lambda>prev. prev\<lparr>severity := v\<rparr>) (page b)\<rparr>)
      else None)"
| "handle (EditTranscript t) b =
     Some (b\<lparr>page := setState (\<lambda>prev. prev\<lparr>transcript := t\<rparr>) (page b)\<rparr>)"
| "handle (SelectCategory k) b =
     (if k \<in> set categories
      then Some (b\<lparr>page := setState (\<lambda>prev. prev\<lparr>category := k\<rparr>) (page b)\<rparr>)
      else None)"
| "handle (TogglePerson p) b =
     (if p \<in> set commonPeople
      then Some (b\<lparr>page := setState (\<lambda>prev. prev\<lparr>peopleInvolved :=
                   (if p \<in> set (peopleInvolved prev)
                    then filter (\<lambda>q. q \<noteq> p) (peopleInvolved prev)
                    else peopleInvolved prev @ [p])\<rparr>) (page b)\<rparr>)
      else None)"
| "handle (RecognitionResult finalTranscript) b =
     Some (b\<lparr>page := setState
             (\<lambda>prev. prev\<lparr>transcript := transcript prev @ finalTranscript\<rparr>) (page b)\<rparr>)"
| "handle RecognitionError b = Some (b\<lparr>page := (page b)\<lparr>isListening := False\<rparr>\<rparr>)"
| "handle RecognitionEnd b =
     Some (b\<lparr>page := (page b)\<lparr>isListening := False,
             recognitionRef := map_option (\<lambda>_. False) (recognitionRef (page b))\<rparr>\<rparr>)"
| "handle Tick b =
     (if intervals (page b) = [] then None
      else Some (b\<lparr>page := (page b)\<lparr>recordingTime := Suc (recordingTime (page b))\<rparr>\<rparr>))"
| "handle Remount b = Some (remount b)"
| "handle (StrayMicrophoneAnswer granted) b =
     (if strayMicrophone b = 0 then None
      else Some (if granted
                 then b\<lparr>page := (page b)\<lparr>liveStreams :=
                                    liveStreams (page b) @ [nextHandle (page b)],
                                  nextHandle := Suc (nextHandle (page b))\<rparr>,
                        strayMicrophone := strayMicrophone b - 1,
                        strayLocation := Suc (strayLocation b)\<rparr>
                 else b\<lparr>page := show_toast recording_failed (page b),
                        strayMicrophone := strayMicrophone b - 1\<rparr>))"
| "handle (StrayLocationAnswer timer started) b =
     (if strayLocation b = 0 \<or> (started \<and> \<not> timer) then None
      else
        let c = page b;
            b1 = (if timer
                  then b\<lparr>page := c\<lparr>nextHandle := Suc (nextHandle c)\<rparr>,
                         strayIntervals := strayIntervals b @ [nextHandle c]\<rparr>
                  else b)
        in Some (b1\<lparr>page := show_toast
                          (if started then recording_started else recording_failed)
                          (page b1),
                    strayLocation := strayLocation b - 1\<rparr>))"

text \<open>
  What the browser can be brought to, from the page as first mounted over any
  storage.
\<close>

inductive reachable :: "browser \<Rightarrow> bool" where
  first: "reachable (opened speech ls)"
| step: "reachable b \<Longrightarrow> handle e b = Some b' \<Longrightarrow> reachable b'"

text \<open>A sequence of events, from the left; \<open>None\<close> as soon as one is not possible.\<close>

fun run_events :: "event list \<Rightarrow> browser \<Rightarrow> browser option" where
  "run_events [] b = Some b"
| "run_events (e # es) b =
     (case handle e b of None \<Rightarrow> None | Some b' \<Rightarrow> run_events es b')"

section \<open>The timeline\<close>

subsection \<open>String and array operations of the host language\<close>

text \<open>
  \<^verbatim>\<open>toLowerCase\<close> on the Latin-1 block: the letters A to Z and the accented capitals
  (all of 192 to 222 but the multiplication sign 215) move up by 32.
\<close>

definition lower_char :: "char \<Rightarrow> char" where
  "lower_char c =
     (let n = of_char c :: nat
      in if (65 \<le> n \<and> n \<le> 90) \<or> (192 \<le> n \<and> n \<le> 222 \<and> n \<noteq> 215)
         then char_of (n + 32) else c)"

definition toLowerCase :: "string \<Rightarrow> string" where
  "toLowerCase s = map lower_char s"

fun startsWith :: "'a list \<Rightarrow> 'a list \<Rightarrow> bool" where
  "startsWith s [] = True"
| "startsWith [] (y # ys) = False"
| "startsWith (x # xs) (y # ys) = (x = y \<and> startsWith xs ys)"

text \<open>\<^verbatim>\<open>s.includes(t)\<close>: \<open>t\<close> starts at some position of \<open>s\<close>.\<close>

fun includes_str :: "'a list \<Rightarrow> 'a list \<Rightarrow> bool" where
  "includes_str [] t = (t = [])"
| "includes_str (x # xs) t = (startsWith (x # xs) t \<or> includes_str xs t)"

text \<open>\<^verbatim>\<open>s.split(sep)\<close> for a separator of one character.\<close>

fun split :: "char \<Rightarrow> string \<Rightarrow> string list" where
  "split sep [] = [[]]"
| "split sep (c # cs) =
     (if c = sep then [] # split sep cs
      else case split sep cs of
             w # ws \<Rightarrow> (c # w) # ws
           | [] \<Rightarrow> [[c]])"

text \<open>\<^verbatim>\<open>xs.join(sep)\<close>.\<close>

fun join :: "string \<Rightarrow> string list \<Rightarrow> string" where
  "join sep [] = []"
| "join sep [x] = x"
| "join sep (x # y # ys) = x @ sep @ join sep (y # ys)"

text \<open>
  A number of the host language: not a number, one of the two infinities, or a finite
  value. \<^verbatim>\<open>Number(s)\<close> itself, the conversion of a string to a number by the host,
  is not part of the program and is a parameter of what uses it.
\<close>

datatype number = NaN | Infinity | MinusInfinity | Finite rat

text \<open>\<^verbatim>\<open>xs[k]\<close> on an array of numbers, used as a number: out of range is \<^verbatim>\<open>undefined\<close>,
  which compares as \<^verbatim>\<open>NaN\<close>.\<close>

definition at_index :: "number list \<Rightarrow> nat \<Rightarrow> number" where
  "at_index xs k = (if k < length xs then xs ! k else NaN)"

text \<open>\<open>a >= b\<close> and \<open>a <= b\<close> between an integer and a number: false on \<^verbatim>\<open>NaN\<close>.\<close>

fun ge_num :: "int \<Rightarrow> number \<Rightarrow> bool" where
  "ge_num a NaN = False"
| "ge_num a Infinity = False"
| "ge_num a MinusInfinity = True"
| "ge_num a (Finite q) = (of_int a \<ge> q)"

fun le_num :: "int \<Rightarrow> number \<Rightarrow> bool" where
  "le_num a NaN = False"
| "le_num a Infinity = True"
| "le_num a MinusInfinity = False"
| "le_num a (Finite q) = (of_int a \<le> q)"

text \<open>
  Subtraction of two times, each an integer of milliseconds or \<^verbatim>\<open>NaN\<close> (\<open>None\<close>):
  \<^verbatim>\<open>NaN\<close> when either side is.
\<close>

definition minus_num :: "int option \<Rightarrow> int option \<Rightarrow> int option" where
  "minus_num a b =
     (case a of None \<Rightarrow> None | Some x \<Rightarrow> (case b of None \<Rightarrow> None | Some y \<Rightarrow> Some (x - y)))"

text \<open>
  \<^verbatim>\<open>Array.prototype.sort\<close> with a comparator. The sort is stable, and a comparator
  result of \<^verbatim>\<open>NaN\<close> counts as 0. For a comparator that orders the elements
  consistently the result is fixed by that; it is computed here by inserting each
  element, from the right, before the first element it does not come after.
\<close>

fun insert_sorted :: "('a \<Rightarrow> 'a \<Rightarrow> int option) \<Rightarrow> 'a \<Rightarrow> 'a list \<Rightarrow> 'a list" where
  "insert_sorted cmp x [] = [x]"
| "insert_sorted cmp x (y # ys) =
     (if (case cmp x y of None \<Rightarrow> 0 | Some v \<Rightarrow> v) \<le> 0 then x # y # ys
      else y # insert_sorted cmp x ys)"

definition array_sort :: "('a \<Rightarrow> 'a \<Rightarrow> int option) \<Rightarrow> 'a list \<Rightarrow> 'a list" where
  "array_sort cmp xs = foldr (insert_sorted cmp) xs []"

subsection \<open>The component\<close>

datatype sort_order = newest | oldest

record IncidentTimeline =
  incidents :: "Incident list"
  filteredIncidents :: "Incident list"
  searchTerm :: string
  categoryFilter :: string
  severityFilter :: string
  sortOrder :: sort_order

definition loadIncidents :: "localStorage \<Rightarrow> IncidentTimeline \<Rightarrow> IncidentTimeline" where
  "loadIncidents ls t =
     (case childfirst_incidents ls of
        None \<Rightarrow> t
      | Some parsedIncidents \<Rightarrow> t\<lparr>incidents := parsedIncidents\<rparr>)"

text \<open>
  \<^verbatim>\<open>filterIncidents\<close>. \<open>Number\<close> is the conversion of the host, and \<open>getTime\<close>
  stands for \<^verbatim>\<open>new Date(s).getTime()\<close>: the milliseconds of the instant the string
  denotes, \<^verbatim>\<open>NaN\<close> for a string that is not a date.
\<close>

definition filterIncidents ::
  "(string \<Rightarrow> number) \<Rightarrow> (string \<Rightarrow> int option) \<Rightarrow> IncidentTimeline \<Rightarrow> IncidentTimeline" where
  "filterIncidents Number getTime t =
     (let filtered = incidents t;
          filtered =
            (if searchTerm t \<noteq> []
             then filter (\<lambda>incident.
                      includes_str (toLowerCase (Incident.transcript incident))
                        (toLowerCase (searchTerm t))
                    \<or> includes_str (toLowerCase (Incident.category incident))
                        (toLowerCase (searchTerm t))) filtered
             else filtered);
          filtered =
            (if categoryFilter t \<noteq> ''all''
             then filter (\<lambda>incident. Incident.category incident = categoryFilter t) filtered
             else filtered);
          filtered =
            (if severityFilter t \<noteq> ''all''
             then let severityRange = map Number (split (CHR ''-'') (severityFilter t))
                  in filter (\<lambda>incident.
                         ge_num (Incident.severity incident) (at_index severityRange 0)
                       \<and> le_num (Incident.severity incident) (at_index severityRange 1))
                       filtered
             else filtered);
          filtered =
            array_sort (\<lambda>a b.
                let dateA = getTime (Incident.timestamp a);
                    dateB = getTime (Incident.timestamp b)
                in if sortOrder t = newest then minus_num dateB dateA
                   else minus_num dateA dateB) filtered
      in t\<lparr>filteredIncidents := filtered\<rparr>)"

definition incident_deleted :: toast where
  "incident_deleted =
     \<lparr>title = ''Incident deleted'',
      description = ''The incident has been removed from your records.'',
      destructive = False\<rparr>"

text \<open>\<^verbatim>\<open>deleteIncident\<close>: the timeline, the storage and the toast after the call.\<close>

definition deleteIncident ::
  "string \<Rightarrow> IncidentTimeline \<Rightarrow> localStorage \<Rightarrow> IncidentTimeline \<times> localStorage \<times> toast" where
  "deleteIncident i t ls =
     (let updatedIncidents = filter (\<lambda>incident. id_str incident \<noteq> i) (incidents t)
      in (t\<lparr>incidents := updatedIncidents\<rparr>,
          ls\<lparr>childfirst_incidents := Some updatedIncidents\<rparr>,
          incident_deleted))"

subsection \<open>The tabular export\<close>

text \<open>The error that ends a handler that nothing guards.\<close>

datatype error = RangeError

text \<open>\<^verbatim>\<open>Number.prototype.toString\<close> on an integer.\<close>

definition toString_int :: "int \<Rightarrow> string" where
  "toString_int i = (if i < 0 then CHR ''-'' # toString (nat (- i)) else toString (nat i))"

text \<open>\<^verbatim>\<open>s.replace(/"/g, '""')\<close>.\<close>

definition double_quotes :: "string \<Rightarrow> string" where
  "double_quotes s = concat (map (\<lambda>c. if c = CHR 0x22 then [CHR 0x22, CHR 0x22] else [c]) s)"

definition csv_headers :: "string list" where
  "csv_headers =
     [''Date'', ''Category'', ''Severity'', ''Location'', ''People Involved'', ''Transcript'']"

text \<open>
  One row of \<^verbatim>\<open>csvData\<close>. \<open>format ts p\<close> stands for
  \<^verbatim>\<open>format(parseISO(ts), p)\<close> of the date library, which throws a \<^verbatim>\<open>RangeError\<close>
  (\<open>None\<close>) when the string is not a date.
\<close>

definition csv_row :: "(string \<Rightarrow> string \<Rightarrow> string option) \<Rightarrow> Incident \<Rightarrow> string list option" where
  "csv_row format incident =
     (case format (Incident.timestamp incident) ''yyyy-MM-dd HH:mm:ss'' of
        None \<Rightarrow> None
      | Some date \<Rightarrow>
          Some [date,
                Incident.category incident,
                toString_int (Incident.severity incident),
                Incident.location incident,
                join ''; '' (Incident.peopleInvolved incident),
                [CHR 0x22] @ double_quotes (Incident.transcript incident) @ [CHR 0x22]])"

text \<open>\<open>map\<close> with a function that may throw: the first error ends it.\<close>

fun map_throwing :: "('a \<Rightarrow> 'b option) \<Rightarrow> 'a list \<Rightarrow> 'b list option" where
  "map_throwing f [] = Some []"
| "map_throwing f (x # xs) =
     (case f x of
        None \<Rightarrow> None
      | Some y \<Rightarrow> (case map_throwing f xs of None \<Rightarrow> None | Some ys \<Rightarrow> Some (y # ys)))"

text \<open>
  \<^verbatim>\<open>exportToCSV\<close>: the content of the downloaded file, or the error that ended the
  handler before anything was downloaded.
\<close>

definition exportToCSV ::
  "(string \<Rightarrow> string \<Rightarrow> string option) \<Rightarrow> IncidentTimeline \<Rightarrow> error + string" where
  "exportToCSV format t =
     (case map_throwing (csv_row format) (filteredIncidents t) of
        None \<Rightarrow> Inl RangeError
      | Some csvData \<Rightarrow>
          Inr (join [CHR 0x0A] (map (join '','') (csv_headers # csvData))))"

subsection \<open>What the view is meant to hold\<close>

text \<open>
  The filters as the design names them. A severity band is "all" or an inclusive range
  of integers; the select box of the page writes the range from \<open>lo\<close> to \<open>hi\<close> as
  the two numbers with a hyphen between them.
\<close>

datatype severity_band = AllSeverities | Band nat nat

fun band_string :: "severity_band \<Rightarrow> string" where
  "band_string AllSeverities = ''all''"
| "band_string (Band lo hi) = toString lo @ ''-'' @ toString hi"

fun in_band :: "severity_band \<Rightarrow> int \<Rightarrow> bool" where
  "in_band AllSeverities s = True"
| "in_band (Band lo hi) s = (int lo \<le> s \<and> s \<le> int hi)"

text \<open>
  The conversion of the host reads the two ends of a band as the integers they are
  written from. (The host's numbers are binary floating point: this is so for every
  integer up to the 53rd power of two, and fails beyond.)
\<close>

fun reads_band :: "(string \<Rightarrow> number) \<Rightarrow> severity_band \<Rightarrow> bool" where
  "reads_band Number AllSeverities = True"
| "reads_band Number (Band lo hi) =
     (Number (toString lo) = Finite (of_nat lo) \<and> Number (toString hi) = Finite (of_nat hi))"

text \<open>\<open>t\<close> occurs in \<open>s\<close> as a run of consecutive characters.\<close>

definition is_substring :: "string \<Rightarrow> string \<Rightarrow> bool" where
  "is_substring t s = (\<exists>pre post. s = pre @ t @ post)"

text \<open>
  The capital letters of the Latin-1 block: A to Z, and the accented capitals from
  192 to 222 without the multiplication sign. The small letter of a capital stands 32
  places after it. Two characters are the same letter when they are equal or one is
  the capital of the other.
\<close>

definition is_capital :: "char \<Rightarrow> bool" where
  "is_capital c =
     (of_char c \<in> {65 .. 90 :: nat} \<or> of_char c \<in> {192 .. 214 :: nat}
      \<or> of_char c \<in> {216 .. 222 :: nat})"

definition same_letter :: "char \<Rightarrow> char \<Rightarrow> bool" where
  "same_letter a b =
     (a = b
      \<or> (is_capital a \<and> (of_char b :: nat) = of_char a + 32)
      \<or> (is_capital b \<and> (of_char a :: nat) = of_char b + 32))"

text \<open>
  \<open>t\<close> occurs in \<open>s\<close> with letter case set aside: some run of consecutive
  characters of \<open>s\<close> is \<open>t\<close>, letter for letter.
\<close>

definition occurs_ignoring_case :: "string \<Rightarrow> string \<Rightarrow> bool" where
  "occurs_ignoring_case t s =
     (\<exists>pre run post. s = pre @ run @ post \<and> list_all2 same_letter t run)"

text \<open>
  The search term occurs in the transcript or in the category, letter case set
  aside.
\<close>

definition matches_search :: "string \<Rightarrow> Incident \<Rightarrow> bool" where
  "matches_search term incident =
     (occurs_ignoring_case term (Incident.transcript incident)
      \<or> occurs_ignoring_case term (Incident.category incident))"

text \<open>An incident passes the three filters together.\<close>

definition in_view :: "string \<Rightarrow> string \<Rightarrow> severity_band \<Rightarrow> Incident \<Rightarrow> bool" where
  "in_view term cat band incident =
     (matches_search term incident
      \<and> (cat = ''all'' \<or> Incident.category incident = cat)
      \<and> in_band band (Incident.severity incident))"

section \<open>The paginated documents\<close>

text \<open>
  A document of the PDF library, as far as the exports use it: the font size in
  force, and what has been put on the pages, in order. A text is recorded with the
  font size it is drawn in and its position; \<open>TextLines\<close> is \<^verbatim>\<open>doc.text\<close> on an
  array of lines.
\<close>

datatype pdf_op =
    Text nat string int int
  | TextLines nat "string list" int int
  | AddPage

record jsPDF =
  fontSize :: nat
  ops :: "pdf_op list"

definition new_jsPDF :: jsPDF where
  "new_jsPDF = \<lparr>fontSize = 16, ops = []\<rparr>"

definition setFontSize :: "nat \<Rightarrow> jsPDF \<Rightarrow> jsPDF" where
  "setFontSize n doc = doc\<lparr>fontSize := n\<rparr>"

definition text_at :: "string \<Rightarrow> int \<Rightarrow> int \<Rightarrow> jsPDF \<Rightarrow> jsPDF" where
  "text_at s x y doc = doc\<lparr>ops := ops doc @ [Text (fontSize doc) s x y]\<rparr>"

definition lines_at :: "string list \<Rightarrow> int \<Rightarrow> int \<Rightarrow> jsPDF \<Rightarrow> jsPDF" where
  "lines_at ls x y doc = doc\<lparr>ops := ops doc @ [TextLines (fontSize doc) ls x y]\<rparr>"

definition addPage :: "jsPDF \<Rightarrow> jsPDF" where
  "addPage doc = doc\<lparr>ops := ops doc @ [AddPage]\<rparr>"

text \<open>
  What the exports take from outside: whether the PDF library loads, the formatting
  of today's date (\<^verbatim>\<open>format(new Date(), p)\<close>), the formatting of a stored timestamp
  (\<^verbatim>\<open>format(parseISO(ts), p)\<close>, which throws on a string that is not a date), the
  line breaking of the PDF library, which breaks a text to a width in the font size
  that is in force, and the text that the host gives for a method of
  \<^verbatim>\<open>Object.prototype\<close> when it is made a string.
\<close>

record pdf_env =
  jspdf_loads :: bool
  format_today :: "string \<Rightarrow> string"
  format_iso :: "string \<Rightarrow> string \<Rightarrow> string option"
  splitTextToSize :: "nat \<Rightarrow> string \<Rightarrow> nat \<Rightarrow> string list"
  function_text :: "string \<Rightarrow> string"

text \<open>\<^verbatim>\<open>forEach\<close> with a body that may throw, on a running state.\<close>

fun forEach :: "('a \<Rightarrow> 's \<Rightarrow> 's option) \<Rightarrow> 'a list \<Rightarrow> 's \<Rightarrow> 's option" where
  "forEach body [] s = Some s"
| "forEach body (x # xs) s =
     (case body x s of None \<Rightarrow> None | Some s' \<Rightarrow> forEach body xs s')"

text \<open>The elements of an array with their indices.\<close>

definition indexed :: "'a list \<Rightarrow> (nat \<times> 'a) list" where
  "indexed xs = zip [0..<length xs] xs"

subsection \<open>The timeline report\<close>

definition export_successful_pdf :: toast where
  "export_successful_pdf =
     \<lparr>title = ''Export successful'',
      description = ''Timeline report has been downloaded as PDF.'', destructive = False\<rparr>"

definition export_failed :: toast where
  "export_failed =
     \<lparr>title = ''Export failed'', description = ''Unable to generate PDF report.'',
      destructive = True\<rparr>"

text \<open>The body of the loop of \<^verbatim>\<open>exportToPDF\<close>, on \<open>yPosition\<close> and the document.\<close>

definition timeline_entry ::
  "pdf_env \<Rightarrow> nat \<times> Incident \<Rightarrow> int \<times> jsPDF \<Rightarrow> (int \<times> jsPDF) option" where
  "timeline_entry env = (\<lambda>(index, incident) (yPosition, doc).
     let (yPosition, doc) =
           (if yPosition > 250 then (20, addPage doc) else (yPosition, doc));
         doc = text_at (toString (index + 1) @ ''. '' @ Incident.category incident)
                 20 yPosition (setFontSize 14 doc);
         yPosition = yPosition + 10
     in case format_iso env (Incident.timestamp incident) ''PPpp'' of
          None \<Rightarrow> None
        | Some date \<Rightarrow>
            let doc = text_at (''Date: '' @ date) 25 yPosition (setFontSize 10 doc);
                yPosition = yPosition + 7;
                doc = text_at (''Severity: '' @ toString_int (Incident.severity incident)
                         @ ''/5'') 25 yPosition doc;
                (yPosition, doc) =
                  (if Incident.location incident \<noteq> []
                   then (yPosition + 7,
                         text_at (''Location: '' @ Incident.location incident) 25
                           (yPosition + 7) doc)
                   else (yPosition, doc));
                (yPosition, doc) =
                  (if length (Incident.peopleInvolved incident) > 0
                   then (yPosition + 7,
                         text_at (''People: '' @ join '', '' (Incident.peopleInvolved incident))
                           25 (yPosition + 7) doc)
                   else (yPosition, doc));
                yPosition = yPosition + 10;
                doc = setFontSize 9 doc;
                splitText = splitTextToSize env (fontSize doc)
                              (Incident.transcript incident) 160;
                doc = lines_at splitText 25 yPosition doc
            in Some (yPosition + int (length splitText) * 4 + 10, doc))"

text \<open>
  \<^verbatim>\<open>exportToPDF\<close>: the toast, and the file saved (its name and the document) unless
  an error was caught.
\<close>

definition exportToPDF :: "pdf_env \<Rightarrow> IncidentTimeline \<Rightarrow> toast \<times> (string \<times> jsPDF) option" where
  "exportToPDF env t =
     (if \<not> jspdf_loads env then (export_failed, None)
      else
        let doc = text_at ''ChildFirst - Incident Timeline Report'' 20 20
                    (setFontSize 20 new_jsPDF);
            doc = text_at (''Generated: '' @ format_today env ''PPP'') 20 35
                    (setFontSize 12 doc);
            doc = text_at (''Total Incidents: '' @ toString (length (filteredIncidents t)))
                    20 45 doc
        in case forEach (timeline_entry env) (indexed (filteredIncidents t)) (60, doc) of
             None \<Rightarrow> (export_failed, None)
           | Some (yPosition, doc) \<Rightarrow>
               (export_successful_pdf, Some (''childfirst-timeline-report.pdf'', doc)))"

subsection \<open>The court report\<close>

record reportData =
  childName :: string
  dateOfBirth :: string
  diagnosis :: string
  reportPurpose :: string
  additionalNotes :: string

definition no_incidents_found :: toast where
  "no_incidents_found =
     \<lparr>title = ''No incidents found'',
      description = ''Please record some incidents before generating a report.'',
      destructive = True\<rparr>"

definition report_generated :: toast where
  "report_generated =
     \<lparr>title = ''Report generated successfully'',
      description = ''Court documentation report has been downloaded.'',
      destructive = False\<rparr>"

definition report_failed :: toast where
  "report_failed =
     \<lparr>title = ''Report generation failed'',
      description = ''Unable to generate court report. Please try again.'',
      destructive = True\<rparr>"

text \<open>
  The counting \<^verbatim>\<open>reduce\<close> counts in a plain object, \<^verbatim>\<open>acc[k] = (acc[k] || 0) + 1\<close>
  from \<^verbatim>\<open>{}\<close>. The value of a property is a count, or a string: a key that names a
  method of \<^verbatim>\<open>Object.prototype\<close> reads as that function before it is first written,
  the function is truthy, and \<^verbatim>\<open>+ 1\<close> on it is the text of the function followed by
  "1"; the next \<^verbatim>\<open>+ 1\<close> appends another "1". The key \<^verbatim>\<open>__proto__\<close> reads as an object
  and the write of a string to it is dropped, so it never becomes a property. The
  object is the list of its own properties in the order in which they were created.
\<close>

datatype property_value = Count nat | Chars string

definition object_prototype_methods :: "string list" where
  "object_prototype_methods =
     [''constructor'', ''hasOwnProperty'', ''isPrototypeOf'', ''propertyIsEnumerable'',
      ''toLocaleString'', ''toString'', ''valueOf'', ''__defineGetter__'',
      ''__defineSetter__'', ''__lookupGetter__'', ''__lookupSetter__'']"

fun plus_one :: "property_value \<Rightarrow> property_value" where
  "plus_one (Count n) = Count (n + 1)"
| "plus_one (Chars s) = Chars (s @ ''1'')"

fun increment :: "string \<Rightarrow> (string \<times> property_value) list \<Rightarrow> (string \<times> property_value) list option" where
  "increment k [] = None"
| "increment k ((k', v) # acc) =
     (if k = k' then Some ((k', plus_one v) # acc)
      else map_option (\<lambda>acc'. (k', v) # acc') (increment k acc))"

definition count_key ::
  "pdf_env \<Rightarrow> string \<Rightarrow> (string \<times> property_value) list \<Rightarrow> (string \<times> property_value) list" where
  "count_key env k acc =
     (if k = ''__proto__'' then acc
      else case increment k acc of
             Some acc' \<Rightarrow> acc'
           | None \<Rightarrow>
               acc @ [(k, if k \<in> set object_prototype_methods
                          then Chars (function_text env k @ ''1'') else Count 1)])"

definition count_by ::
  "pdf_env \<Rightarrow> ('a \<Rightarrow> string) \<Rightarrow> 'a list \<Rightarrow> (string \<times> property_value) list" where
  "count_by env key xs = foldl (\<lambda>acc x. count_key env (key x) acc) [] xs"

text \<open>
  \<^verbatim>\<open>acc[k] || 0\<close> on a key that \<^verbatim>\<open>Object.prototype\<close> does not have, and a value in a
  template string.
\<close>

definition count_of :: "(string \<times> property_value) list \<Rightarrow> string \<Rightarrow> property_value" where
  "count_of acc k = (case map_of acc k of None \<Rightarrow> Count 0 | Some v \<Rightarrow> v)"

fun in_template :: "property_value \<Rightarrow> string" where
  "in_template (Count n) = toString n"
| "in_template (Chars s) = s"

text \<open>
  \<^verbatim>\<open>Object.entries\<close>: the keys that are array indices (the strings of digits
  that are the decimal numeral of their own value, the value below \<open>2\<^sup>3\<^sup>2 - 1\<close>) come
  first, in rising order, and the other keys follow in the order in which they were
  created.
\<close>

definition is_digit :: "char \<Rightarrow> bool" where
  "is_digit c = (c \<in> set ''0123456789'')"

definition digit_val :: "char \<Rightarrow> nat" where
  "digit_val c = of_char c - 48"

definition decimal_value :: "string \<Rightarrow> nat" where
  "decimal_value s = foldl (\<lambda>acc c. 10 * acc + digit_val c) 0 s"

definition is_array_index :: "string \<Rightarrow> bool" where
  "is_array_index k =
     (list_all is_digit k \<and> toString (decimal_value k) = k \<and> decimal_value k < 4294967295)"

definition Object_entries :: "(string \<times> 'v) list \<Rightarrow> (string \<times> 'v) list" where
  "Object_entries obj =
     sort_key (\<lambda>(k, v). decimal_value k) (filter (\<lambda>(k, v). is_array_index k) obj)
     @ filter (\<lambda>(k, v). \<not> is_array_index k) obj"

text \<open>\<^verbatim>\<open>b - a\<close> on two values: a number between counts, \<^verbatim>\<open>NaN\<close> (\<open>None\<close>) when
  either is the text of a function.\<close>

fun minus_value :: "property_value \<Rightarrow> property_value \<Rightarrow> int option" where
  "minus_value (Count b) (Count a) = Some (int b - int a)"
| "minus_value b a = None"

definition severity_level :: "Incident \<Rightarrow> string" where
  "severity_level incident =
     (if Incident.severity incident \<le> 2 then ''Low''
      else if Incident.severity incident \<le> 3 then ''Medium'' else ''High'')"

text \<open>\<^verbatim>\<open>x || d\<close> on strings.\<close>

definition or_default :: "string \<Rightarrow> string \<Rightarrow> string" where
  "or_default x d = (if x = [] then d else x)"

text \<open>The body of the loop of \<^verbatim>\<open>generateCourtReport\<close>.\<close>

definition court_entry ::
  "pdf_env \<Rightarrow> nat \<times> Incident \<Rightarrow> int \<times> jsPDF \<Rightarrow> (int \<times> jsPDF) option" where
  "court_entry env = (\<lambda>(index, incident) (yPosition, doc).
     let (yPosition, doc) =
           (if yPosition > 250 then (20, addPage doc) else (yPosition, doc));
         doc = text_at (toString (index + 1) @ ''. '' @ Incident.category incident
                  @ '' - Severity: '' @ toString_int (Incident.severity incident) @ ''/5'')
                 20 yPosition (setFontSize 11 doc);
         yPosition = yPosition + 10
     in case format_iso env (Incident.timestamp incident) ''PPpp'' of
          None \<Rightarrow> None
        | Some date \<Rightarrow>
            let doc = text_at (''Date: '' @ date) 25 yPosition (setFontSize 9 doc);
                yPosition = yPosition + 7;
                (yPosition, doc) =
                  (if Incident.location incident \<noteq> []
                   then (yPosition + 7,
                         text_at ''Location: GPS coordinates recorded'' 25 yPosition doc)
                   else (yPosition, doc));
                (yPosition, doc) =
                  (if length (Incident.peopleInvolved incident) > 0
                   then (yPosition + 7,
                         text_at (''People Involved: ''
                             @ join '', '' (Incident.peopleInvolved incident))
                           25 yPosition doc)
                   else (yPosition, doc));
                splitText = splitTextToSize env (fontSize doc)
                              (Incident.transcript incident) 160;
                doc = text_at ''Description:'' 25 yPosition doc;
                yPosition = yPosition + 7;
                doc = lines_at splitText 25 yPosition doc
            in Some (yPosition + int (length splitText) * 4 + 10, doc))"

text \<open>
  \<^verbatim>\<open>generateCourtReport\<close>, on the form of the page and the storage: the toast, and
  the file saved, if any.
\<close>

definition generateCourtReport ::
  "pdf_env \<Rightarrow> reportData \<Rightarrow> localStorage \<Rightarrow> toast \<times> (string \<times> jsPDF) option" where
  "generateCourtReport env rd ls =
     (let incidents = (case childfirst_incidents ls of None \<Rightarrow> [] | Some xs \<Rightarrow> xs)
      in if length incidents = 0 then (no_incidents_found, None)
         else if \<not> jspdf_loads env then (report_failed, None)
         else
           let doc = text_at ''COURT DOCUMENTATION REPORT'' 20 20 (setFontSize 16 new_jsPDF);
               doc = text_at ''ChildFirst - Neurodivergent Child Support'' 20 30 doc;
               doc = text_at ''CHILD INFORMATION'' 20 50 (setFontSize 12 doc);
               doc = text_at (''Name: '' @ or_default (childName rd) ''[Child Name]'')
                       25 60 (setFontSize 10 doc);
               doc = text_at (''Date of Birth: ''
                         @ or_default (dateOfBirth rd) ''[Date of Birth]'') 25 70 doc;
               doc = text_at (''Diagnosis: '' @ or_default (diagnosis rd) ''[Diagnosis]'')
                       25 80 doc;
               doc = text_at (''Report Purpose: ''
                         @ or_default (reportPurpose rd) ''[Report Purpose]'') 25 90 doc;
               doc = text_at (''Generated: '' @ format_today env ''PPP'') 25 100 doc;
               doc = text_at ''INCIDENT SUMMARY'' 20 120 (setFontSize 12 doc);
               doc = text_at (''Total Incidents Recorded: '' @ toString (length incidents))
                       25 130 (setFontSize 10 doc);
               severityCount = count_by env severity_level incidents;
               doc = text_at (''Severity Breakdown: Low: ''
                         @ in_template (count_of severityCount ''Low'')
                         @ '', Medium: '' @ in_template (count_of severityCount ''Medium'')
                         @ '', High: '' @ in_template (count_of severityCount ''High''))
                       25 140 doc;
               categoryCount = count_by env Incident.category incidents;
               sorted_entries =
                 array_sort (\<lambda>(_, a) (_, b). minus_value b a) (Object_entries categoryCount);
               doc = text_at (''Most Common Category: ''
                         @ (case sorted_entries of
                              [] \<Rightarrow> ''N/A''
                            | mostCommon # _ \<Rightarrow>
                                fst mostCommon @ '' ('' @ in_template (snd mostCommon)
                                  @ '' incidents)''))
                       25 150 doc;
               yPosition = 170;
               doc = text_at ''DETAILED INCIDENT REPORTS'' 20 yPosition (setFontSize 12 doc);
               yPosition = yPosition + 20
           in case forEach (court_entry env) (indexed (take 10 incidents)) (yPosition, doc) of
                None \<Rightarrow> (report_failed, None)
              | Some (yPosition, doc) \<Rightarrow>
                  let doc =
                        (if additionalNotes rd \<noteq> []
                         then
                           let (yPosition, doc) =
                                 (if yPosition > 200 then (20, addPage doc)
                                  else (yPosition, doc));
                               doc = text_at ''ADDITIONAL NOTES'' 20 yPosition
                                       (setFontSize 12 doc);
                               yPosition = yPosition + 15;
                               doc = setFontSize 10 doc;
                               additionalText =
                                 splitTextToSize env (fontSize doc) (additionalNotes rd) 160
                           in lines_at additionalText 25 yPosition doc
                         else doc);
                      doc = text_at
                              ''This report was generated by ChildFirst app for legal documentation purposes.''
                              20 280 (setFontSize 8 doc);
                      doc = text_at
                              ''All data is stored locally on the device for privacy protection.''
                              20 285 doc
                  in (report_generated,
                      Some (''childfirst-court-report-'' @ format_today env ''yyyy-MM-dd''
                              @ ''.pdf'', doc)))"

text \<open>
  The headings of the entries of a document: the texts drawn in the font size that
  only the heading of an entry uses (14 in the timeline report, 11 in the court
  report), in the order in which they were drawn.
\<close>

fun text_in_size :: "nat \<Rightarrow> pdf_op \<Rightarrow> string option" where
  "text_in_size n (Text sz s x y) = (if sz = n then Some s else None)"
| "text_in_size n (TextLines sz ls x y) = None"
| "text_in_size n AddPage = None"

definition headings :: "nat \<Rightarrow> jsPDF \<Rightarrow> string list" where
  "headings n doc = List.map_filter (text_in_size n) (ops doc)"

text \<open>The transcripts of the entries: the arrays of lines drawn in a font size.\<close>

fun lines_in_size :: "nat \<Rightarrow> pdf_op \<Rightarrow> string list option" where
  "lines_in_size n (Text sz s x y) = None"
| "lines_in_size n (TextLines sz ls x y) = (if sz = n then Some ls else None)"
| "lines_in_size n AddPage = None"

definition transcripts :: "nat \<Rightarrow> jsPDF \<Rightarrow> string list list" where
  "transcripts n doc = List.map_filter (lines_in_size n) (ops doc)"

text \<open>The heading that each of the two loops draws for the incident at an index.\<close>

definition timeline_heading :: "nat \<times> Incident \<Rightarrow> string" where
  "timeline_heading = (\<lambda>(index, incident).
     toString (index + 1) @ ''. '' @ Incident.category incident)"

definition court_heading :: "nat \<times> Incident \<Rightarrow> string" where
  "court_heading = (\<lambda>(index, incident).
     toString (index + 1) @ ''. '' @ Incident.category incident
       @ '' - Severity: '' @ toString_int (Incident.severity incident) @ ''/5'')"

text \<open>
  Reading a quoted field of a comma-separated file back: a doubled quote stands for
  one quote.
\<close>

fun csv_unescape :: "string \<Rightarrow> string" where
  "csv_unescape (a # b # cs) =
     (if a = CHR 0x22 \<and> b = CHR 0x22 then a # csv_unescape cs
      else a # csv_unescape (b # cs))"
| "csv_unescape cs = cs"

text \<open>
  A line of the tabular export for an incident whose date is formatted as \<open>date\<close>
  says, and the incidents none of whose fields holds a line break.
\<close>

definition csv_line :: "(Incident \<Rightarrow> string) \<Rightarrow> Incident \<Rightarrow> string" where
  "csv_line date incident =
     join '','' [date incident, Incident.category incident,
       toString_int (Incident.severity incident), Incident.location incident,
       join ''; '' (Incident.peopleInvolved incident),
       [CHR 0x22] @ double_quotes (Incident.transcript incident) @ [CHR 0x22]]"

definition single_line :: "(Incident \<Rightarrow> string) \<Rightarrow> Incident \<Rightarrow> bool" where
  "single_line date incident =
     (CHR 0x0A \<notin> set (date incident) \<union> set (Incident.category incident)
        \<union> set (Incident.location incident) \<union> set (concat (Incident.peopleInvolved incident))
        \<union> set (Incident.transcript incident))"

section \<open>The settings page: restoring a backup\<close>

text \<open>
  A field of the parsed backup document as \<^verbatim>\<open>importData\<close> tests it: not there, there
  with a value that counts as false (\<^verbatim>\<open>null\<close>, \<^verbatim>\<open>false\<close>, \<^verbatim>\<open>0\<close>, the empty
  string), or there with a value of the type the export writes. An array counts as
  true also when it is empty.
\<close>

datatype 'a field = Undefined | Falsy | Truthy 'a

record backup =
  version :: "string field"
  exportDate :: "string field"
  incidents_field :: "Incident list field"
  settings_field :: "(string \<rightharpoonup> string) field"

text \<open>
  What \<^verbatim>\<open>JSON.parse\<close> makes of the chosen file: it throws a \<^verbatim>\<open>SyntaxError\<close>, or
  gives \<^verbatim>\<open>null\<close> (reading a property of which throws a \<^verbatim>\<open>TypeError\<close>), or gives
  a document. A number, a string or an array is a document without any of the fields.
\<close>

datatype parsed = Unparsable | Null | Document backup

definition import_failed :: toast where
  "import_failed =
     \<lparr>title = ''Import failed'', description = ''Invalid backup file format.'',
      destructive = True\<rparr>"

definition data_imported :: "nat \<Rightarrow> toast" where
  "data_imported n =
     \<lparr>title = ''Data imported successfully'',
      description = ''Imported '' @ toString n @ '' incidents.'', destructive = False\<rparr>"

text \<open>
  \<^verbatim>\<open>importData\<close>, given the file chosen (if any), on the settings of the page and the
  storage: the toast shown (if any), the settings and the storage after the call.
  \<open>settings ++ m\<close> is the object spread \<^verbatim>\<open>{ ...settings, ...m }\<close>. The storage
  summary of the page, which is recomputed from the storage, is left out.
\<close>

definition importData ::
  "parsed option \<Rightarrow> (string \<rightharpoonup> string) \<Rightarrow> localStorage \<Rightarrow>
     toast option \<times> (string \<rightharpoonup> string) \<times> localStorage" where
  "importData file settings ls =
     (case file of
        None \<Rightarrow> (None, settings, ls)
      | Some Unparsable \<Rightarrow> (Some import_failed, settings, ls)
      | Some Null \<Rightarrow> (Some import_failed, settings, ls)
      | Some (Document d) \<Rightarrow>
          let ls1 = (case incidents_field d of
                       Truthy xs \<Rightarrow> ls\<lparr>childfirst_incidents := Some xs\<rparr>
                     | _ \<Rightarrow> ls);
              (ls2, settings') =
                 (case settings_field d of
                    Truthy m \<Rightarrow> (ls1\<lparr>childfirst_settings := Some m\<rparr>, settings ++ m)
                  | _ \<Rightarrow> (ls1, settings));
              n = (case incidents_field d of Truthy xs \<Rightarrow> length xs | _ \<Rightarrow> 0)
          in (Some (data_imported n), settings', ls2))"

section \<open>Example data\<close>

text \<open>The two incidents of scenario A, a freshly mounted recording page, and pages
  as the caregiver has filled them in.\<close>

definition scenarioA_store :: "Incident list" where
  "scenarioA_store =
     [\<lparr>id_str = ''1704103200000'', Incident.timestamp = ''2024-01-01T10:00:00Z'',
       Incident.category = ''Meltdown'', Incident.severity = 2, Incident.location = '''',
       Incident.transcript = ''t1'', Incident.peopleInvolved = []\<rparr>,
      \<lparr>id_str = ''1704189600000'', Incident.timestamp = ''2024-01-02T10:00:00Z'',
       Incident.category = ''Meltdown'', Incident.severity = 5, Incident.location = '''',
       Incident.transcript = ''t2'', Incident.peopleInvolved = [''Child'']\<rparr>]"

definition scenarioA_storage :: localStorage where
  "scenarioA_storage =
     \<lparr>childfirst_incidents = Some scenarioA_store, childfirst_settings = None,
      childfirst_last_backup = None\<rparr>"

definition scenarioD_page :: VoiceRecording where
  "scenarioD_page = (mounted True)\<lparr>state := initialState\<lparr>transcript := ''  '', category := ''Meltdown''\<rparr>\<rparr>"


definition edited_page :: VoiceRecording where
  "edited_page =
     (mounted True)\<lparr>state := initialState\<lparr>transcript := '' he fell  '', category := ''Meltdown'',
       severity := 4, peopleInvolved := [''Child''], location := ''Location access denied'',
       timestamp := ''2024-01-03T09:59:00.000Z''\<rparr>\<rparr>"

definition filled_in :: "event list" where
  "filled_in = [EditTranscript ''t3'', SelectCategory ''Meltdown'', SlideSeverity 4]"

definition filled_browser :: browser where
  "filled_browser =
     (opened True scenarioA_storage)
       \<lparr>page := (mounted True)\<lparr>state := initialState\<lparr>transcript := ''t3'',
          category := ''Meltdown'', severity := 4\<rparr>\<rparr>\<rparr>"

definition duplicate_backup :: backup where
  "duplicate_backup =
     \<lparr>version = Truthy ''1.0'', exportDate = Truthy ''2024-01-03T10:00:00.000Z'',
      incidents_field = Truthy (scenarioA_store @ [hd scenarioA_store]),
      settings_field = Undefined\<rparr>"

definition empty_timeline :: IncidentTimeline where
  "empty_timeline =
     \<lparr>incidents = [], filteredIncidents = [], searchTerm = '''', categoryFilter = ''all'',
      severityFilter = ''all'', sortOrder = newest\<rparr>"

text \<open>
  The date library on a host whose time zone is UTC, on the timestamps and patterns of
  the examples.
\<close>

definition sample_format :: "string \<Rightarrow> string \<Rightarrow> string option" where
  "sample_format ts p =
     map_of
       [((''2024-01-01T10:00:00Z'', ''yyyy-MM-dd HH:mm:ss''), ''2024-01-01 10:00:00''),
        ((''2024-01-02T10:00:00Z'', ''yyyy-MM-dd HH:mm:ss''), ''2024-01-02 10:00:00''),
        ((''2024-01-01T10:00:00Z'', ''PPpp''), ''Jan 1, 2024, 10:00:00 AM''),
        ((''2024-01-02T10:00:00Z'', ''PPpp''), ''Jan 2, 2024, 10:00:00 AM'')]
       (ts, p)"

definition sample_env :: pdf_env where
  "sample_env =
     \<lparr>jspdf_loads = True,
      format_today = (\<lambda>p. if p = ''PPP'' then ''January 3rd, 2024'' else ''2024-01-03''),
      format_iso = sample_format,
      splitTextToSize = (\<lambda>sz s width. [s]),
      function_text = (\<lambda>name. ''function '' @ (if name = ''constructor'' then ''Object'' else name)
                         @ ''() { [native code] }'')\<rparr>"

definition sample_report :: reportData where
  "sample_report =
     \<lparr>childName = ''A'', dateOfBirth = '''', diagnosis = '''', reportPurpose = '''',
      additionalNotes = ''''\<rparr>"

definition empty_storage :: localStorage where
  "empty_storage =
     \<lparr>childfirst_incidents = None, childfirst_settings = None,
      childfirst_last_backup = None\<rparr>"

definition scenarioA_timeline :: IncidentTimeline where
  "scenarioA_timeline =
     \<lparr>incidents = scenarioA_store, filteredIncidents = scenarioA_store, searchTerm = '''',
      categoryFilter = ''all'', severityFilter = ''all'', sortOrder = newest\<rparr>"

text \<open>A store of eleven incidents.\<close>

definition eleven_incidents :: "Incident list" where
  "eleven_incidents =
     map (\<lambda>k. \<lparr>id_str = toString (1704103200000 + k),
               Incident.timestamp = ''2024-01-01T10:00:00Z'',
               Incident.category = ''Meltdown'', Incident.severity = 2,
               Incident.location = '''', Incident.transcript = toString k,
               Incident.peopleInvolved = []\<rparr>) [0..<11]"

definition eleven_storage :: localStorage where
  "eleven_storage =
     \<lparr>childfirst_incidents = Some eleven_incidents, childfirst_settings = None,
      childfirst_last_backup = None\<rparr>"

text \<open>A backup document that has settings and no incidents.\<close>

definition settings_only_backup :: backup where
  "settings_only_backup =
     \<lparr>version = Truthy ''1.0'', exportDate = Truthy ''2024-01-03T10:00:00.000Z'',
      incidents_field = Undefined,
      settings_field = Truthy [''darkMode'' \<mapsto> ''true'']\<rparr>"

text \<open>
  Two clicks on the round button before the microphone has answered the first, and
  the answers of the microphone and of the location to both calls.
\<close>

definition double_click :: "event list" where
  "double_click =
     [ClickRecord, ClickRecord, MicrophoneAnswer True, MicrophoneAnswer True,
      LocationAnswer ''Location access denied'' ''2024-01-03T10:00:00.000Z'',
      LocationAnswer ''Location access denied'' ''2024-01-03T10:00:00.100Z'']"

text \<open>
  The host on the examples of the timeline: the milliseconds of three timestamps, and
  the numbers that the five severities are read as.
\<close>

definition sample_getTime :: "string \<Rightarrow> int option" where
  "sample_getTime ts =
     map_of [(''2024-01-01T10:00:00Z'', 1704103200000),
             (''2024-01-02T10:00:00Z'', 1704189600000),
             (''2024-01-03T10:00:00Z'', 1704276000000)] ts"

definition sample_Number :: "string \<Rightarrow> number" where
  "sample_Number s =
     (case map_of [(''1'', 1), (''2'', 2), (''3'', 3), (''4'', 4), (''5'', 5)] s of
        None \<Rightarrow> NaN
      | Some q \<Rightarrow> Finite q)"

text \<open>
  A store of six incidents. The second and the third have one and the same time, and so
  have the fourth and the sixth.
\<close>

definition noise_store :: "Incident list" where
  "noise_store =
     [\<lparr>id_str = ''1704103200000'', Incident.timestamp = ''2024-01-01T10:00:00Z'',
       Incident.category = ''Meltdown'', Incident.severity = 2, Incident.location = [],
       Incident.transcript = ''Loud NOISE in class'', Incident.peopleInvolved = []\<rparr>,
      \<lparr>id_str = ''1704189600000'', Incident.timestamp = ''2024-01-02T10:00:00Z'',
       Incident.category = ''Meltdown'', Incident.severity = 5, Incident.location = [],
       Incident.transcript = ''loud Noise at school'', Incident.peopleInvolved = []\<rparr>,
      \<lparr>id_str = ''1704189600001'', Incident.timestamp = ''2024-01-02T10:00:00Z'',
       Incident.category = ''Meltdown'', Incident.severity = 4, Incident.location = [],
       Incident.transcript = ''NOISE again'', Incident.peopleInvolved = []\<rparr>,
      \<lparr>id_str = ''1704276000000'', Incident.timestamp = ''2024-01-03T10:00:00Z'',
       Incident.category = ''Sensory Overload'', Incident.severity = 5,
       Incident.location = [], Incident.transcript = ''noise and fell DOWN'',
       Incident.peopleInvolved = []\<rparr>,
      \<lparr>id_str = ''1704103200001'', Incident.timestamp = ''2024-01-01T10:00:00Z'',
       Incident.category = ''School Refusal'', Incident.severity = 4,
       Incident.location = [], Incident.transcript = ''quiet day'',
       Incident.peopleInvolved = []\<rparr>,
      \<lparr>id_str = ''1704276000001'', Incident.timestamp = ''2024-01-03T10:00:00Z'',
       Incident.category = ''Meltdown'', Incident.severity = 4, Incident.location = [],
       Incident.transcript = ''the noisE'', Incident.peopleInvolved = []\<rparr>]"

text \<open>
  Two views of that store. The first searches for "nOIse" among the meltdowns of
  severity 4 to 5, in either order; the second searches for "DOWN" in all categories
  and severities, newest first.
\<close>

definition noise_view :: "sort_order \<Rightarrow> IncidentTimeline" where
  "noise_view order =
     \<lparr>incidents = noise_store, filteredIncidents = [], searchTerm = ''nOIse'',
      categoryFilter = ''Meltdown'', severityFilter = ''4-5'', sortOrder = order\<rparr>"

definition down_view :: IncidentTimeline where
  "down_view =
     \<lparr>incidents = noise_store, filteredIncidents = [], searchTerm = ''DOWN'',
      categoryFilter = ''all'', severityFilter = ''all'', sortOrder = newest\<rparr>"

text \<open>
  Starting a recording, leaving the page, coming back and starting again.
\<close>

definition leave_and_return :: "event list" where
  "leave_and_return =
     [ClickRecord, MicrophoneAnswer True,
      LocationAnswer ''Location access denied'' ''2024-01-03T10:00:00.000Z'',
      Remount,
      ClickRecord, MicrophoneAnswer True,
      LocationAnswer ''Location access denied'' ''2024-01-03T10:05:00.000Z'']"

section \<open>Trimming\<close>

lemma all_dropWhile: "(\<forall>x\<in>set (dropWhile P s). P x) \<longleftrightarrow> (\<forall>x\<in>set s. P x)"
  by (induction s) auto

lemma trim_empty_iff: "trim s = [] \<longleftrightarrow> (\<forall>c\<in>set s. is_ws c)"
  by (simp add: trim_def all_dropWhile)

lemma hd_dropWhile_rev:
  "dropWhile P (rev xs) \<noteq> [] \<Longrightarrow> hd (rev (dropWhile P (rev xs))) = hd xs"
  by (cases xs) (auto simp: dropWhile_append split: if_splits)

lemma trim_hd: "trim s \<noteq> [] \<Longrightarrow> \<not> is_ws (hd (trim s))"
proof -
  assume ne: "trim s \<noteq> []"
  let ?d = "dropWhile is_ws s"
  have r: "dropWhile is_ws (rev ?d) \<noteq> []" using ne by (simp add: trim_def)
  then have d: "?d \<noteq> []" by (cases "?d") simp_all
  have "hd (trim s) = hd ?d"
    unfolding trim_def using r by (rule hd_dropWhile_rev)
  moreover have "\<not> is_ws (hd ?d)" using d by (rule hd_dropWhile)
  ultimately show ?thesis by simp
qed

lemma trim_last: "trim s \<noteq> [] \<Longrightarrow> \<not> is_ws (last (trim s))"
proof -
  assume ne: "trim s \<noteq> []"
  let ?r = "dropWhile is_ws (rev (dropWhile is_ws s))"
  have r: "?r \<noteq> []" using ne by (simp add: trim_def)
  then have "\<not> is_ws (hd ?r)" by (rule hd_dropWhile)
  then show ?thesis by (simp add: trim_def last_rev)
qed

lemma trim_decomp:
  "\<exists>pre post. s = pre @ trim s @ post \<and> (\<forall>c\<in>set pre. is_ws c) \<and> (\<forall>c\<in>set post. is_ws c)"
proof -
  let ?d = "dropWhile is_ws s"
  let ?pre = "takeWhile is_ws s"
  let ?post = "rev (takeWhile is_ws (rev ?d))"
  have "rev (trim s @ ?post) = rev ?d"
    by (simp add: trim_def)
  then have "trim s @ ?post = ?d"
    by (simp only: rev_is_rev_conv)
  then have "?pre @ trim s @ ?post = s" by simp
  then have "s = ?pre @ trim s @ ?post" by (rule sym)
  moreover have "\<forall>c\<in>set ?pre. is_ws c" by (auto dest: set_takeWhileD)
  moreover have "\<forall>c\<in>set ?post. is_ws c" by (auto dest: set_takeWhileD)
  ultimately show ?thesis by blast
qed

section \<open>Decimal rendering\<close>

lemma toString_nonempty: "toString n \<noteq> []"
  by (subst toString.simps) simp

lemma digit_char_inj: "a < 10 \<Longrightarrow> b < 10 \<Longrightarrow> digit_char a = digit_char b \<Longrightarrow> a = b"
proof -
  assume a: "a < 10" and b: "b < 10" and e: "digit_char a = digit_char b"
  have "distinct ''0123456789''" by simp
  moreover have "a < length ''0123456789''" "b < length ''0123456789''" using a b by simp_all
  ultimately show "a = b" using e unfolding digit_char_def
    by (simp only: nth_eq_iff_index_eq)
qed

lemma toString_inj: "toString m = toString n \<Longrightarrow> m = n"
proof (induction m arbitrary: n rule: toString.induct)
  case (1 m)
  show ?case
  proof (cases "m < 10")
    case small_m: True
    show ?thesis
    proof (cases "n < 10")
      case True
      with small_m "1.prems" have "digit_char m = digit_char n"
        by (simp add: toString.simps [of m] toString.simps [of n])
      with small_m True show ?thesis by (rule digit_char_inj)
    next
      case False
      with small_m "1.prems" toString_nonempty [of "n div 10"] show ?thesis
        by (simp add: toString.simps [of m] toString.simps [of n])
    qed
  next
    case big_m: False
    show ?thesis
    proof (cases "n < 10")
      case True
      with big_m "1.prems" toString_nonempty [of "m div 10"] show ?thesis
        by (simp add: toString.simps [of m] toString.simps [of n])
    next
      case False
      with big_m "1.prems" have
        eq: "toString (m div 10) = toString (n div 10)"
        and d: "digit_char (m mod 10) = digit_char (n mod 10)"
        by (simp_all add: toString.simps [of m] toString.simps [of n])
      from "1.IH" [OF big_m eq] have "m div 10 = n div 10" .
      moreover from d have "m mod 10 = n mod 10"
        by (intro digit_char_inj) simp_all
      ultimately show ?thesis by (metis div_mult_mod_eq)
    qed
  qed
qed


section \<open>What the events preserve\<close>

lemma state_show_toast: "state (show_toast t c) = state c"
  by (simp add: show_toast_def)

lemma state_setInterval: "state (setInterval c) = state c"
  by (simp add: setInterval_def)

lemma severity_stopRecording: "severity (state (stopRecording c)) = severity (state c)"
  by (simp add: stopRecording_def Let_def state_show_toast split: option.split)

lemma severity_resetRecording: "severity (state (resetRecording c)) = 3"
  by (simp add: resetRecording_def initialState_def)

lemma severity_after_getUserMedia:
  "severity (state (after_getUserMedia c)) = severity (state c)"
  by (simp add: after_getUserMedia_def)

lemma severity_after_getCurrentLocation:
  "severity (state (after_getCurrentLocation loc nowISO c)) = severity (state c)"
  by (simp add: after_getCurrentLocation_def Let_def state_show_toast state_setInterval
      split: option.split bool.split)

lemma severity_pauseRecording: "severity (state (pauseRecording c)) = severity (state c)"
  by (simp add: pauseRecording_def Let_def state_setInterval split: option.split bool.split)

lemma severity_saveIncident:
  "severity (state (fst (saveIncident now nowISO c ls))) = severity (state c)
   \<or> severity (state (fst (saveIncident now nowISO c ls))) = 3"
  by (simp add: saveIncident_def Let_def state_show_toast severity_resetRecording)

lemma severity_remount: "severity (state (page (remount b))) = 3"
  by (simp add: remount_def Let_def mounted_def initialState_def)

lemma handle_severity:
  assumes "handle e b = Some b'"
    and "1 \<le> severity (state (page b)) \<and> severity (state (page b)) \<le> 5"
  shows "1 \<le> severity (state (page b')) \<and> severity (state (page b')) \<le> 5"
proof (cases e)
  case ClickRecord
  with assms show ?thesis by (auto simp: severity_stopRecording split: if_splits)
next
  case (MicrophoneAnswer granted)
  with assms show ?thesis
    by (auto simp: severity_after_getUserMedia state_show_toast split: if_splits)
next
  case (LocationAnswer loc nowISO)
  with assms show ?thesis
    by (auto simp: severity_after_getCurrentLocation split: if_splits)
next
  case ClickPause
  with assms show ?thesis by (auto simp: severity_pauseRecording split: if_splits)
next
  case ClickReset
  with assms show ?thesis by (auto simp: severity_resetRecording split: if_splits)
next
  case (ClickSave now nowISO)
  with assms have "page b' = fst (saveIncident now nowISO (page b) (storage b))"
    by (auto split: if_splits)
  with severity_saveIncident [of now nowISO "page b" "storage b"] assms(2)
  show ?thesis by auto
next
  case (SlideSeverity v)
  with assms show ?thesis by (auto simp: setState_def split: if_splits)
next
  case (EditTranscript t)
  with assms show ?thesis by (auto simp: setState_def)
next
  case (SelectCategory k)
  with assms show ?thesis by (auto simp: setState_def split: if_splits)
next
  case (TogglePerson p)
  with assms show ?thesis by (auto simp: setState_def split: if_splits)
next
  case (RecognitionResult t)
  with assms show ?thesis by (auto simp: setState_def)
next
  case RecognitionError
  with assms show ?thesis by auto
next
  case RecognitionEnd
  with assms show ?thesis by auto
next
  case Tick
  with assms show ?thesis by (auto split: if_splits)
next
  case Remount
  with assms show ?thesis by (auto simp: severity_remount)
next
  case (StrayMicrophoneAnswer granted)
  with assms show ?thesis by (auto simp: state_show_toast split: if_splits)
next
  case (StrayLocationAnswer timer started)
  with assms show ?thesis by (auto simp: Let_def state_show_toast split: if_splits)
qed

lemma reachable_severity:
  "reachable b \<Longrightarrow> 1 \<le> severity (state (page b)) \<and> severity (state (page b)) \<le> 5"
proof (induction rule: reachable.induct)
  case (first speech ls)
  show ?case by (simp add: opened_def mounted_def initialState_def)
next
  case (step b e b')
  from step.hyps(2) step.IH show ?case by (rule handle_severity)
qed

lemma reachable_run_events:
  "reachable b \<Longrightarrow> run_events es b = Some b' \<Longrightarrow> reachable b'"
proof (induction es arbitrary: b)
  case Nil
  then show ?case by simp
next
  case (Cons e es)
  then show ?case by (auto split: option.splits intro: reachable.step)
qed


section \<open>Saving an incident\<close>

lemma stored_after_save:
  "stored_incidents (snd (saveIncident now nowISO c ls)) =
     (if trim (transcript (state c)) = [] \<or> category (state c) = []
      then stored_incidents ls
      else stored_incidents ls @
        [\<lparr>id_str = toString now,
          Incident.timestamp =
            (if timestamp (state c) = [] then nowISO else timestamp (state c)),
          Incident.category = category (state c),
          Incident.severity = severity (state c),
          Incident.location = location (state c),
          Incident.transcript = trim (transcript (state c)),
          Incident.peopleInvolved = peopleInvolved (state c)\<rparr>])"
  by (simp add: saveIncident_def Let_def stored_incidents_def)

text \<open>
  Claim C1. Whatever the page and the storage hold, \<^verbatim>\<open>saveIncident\<close> on a
  transcript of white space only (the empty one included) or on an empty category
  shows the destructive toast "Missing information" (the validation error), leaves
  the state of the page as it was and returns the storage unchanged: no incident is
  appended and the number of stored incidents is the same.
\<close>

theorem saveIncident_rejects:
  assumes "(\<forall>ch\<in>set (transcript (state c)). is_ws ch) \<or> category (state c) = []"
  shows "saveIncident now nowISO c ls = (show_toast missing_information c, ls)
       \<and> state (fst (saveIncident now nowISO c ls)) = state c
       \<and> stored_incidents (snd (saveIncident now nowISO c ls)) = stored_incidents ls
       \<and> length (stored_incidents (snd (saveIncident now nowISO c ls)))
           = length (stored_incidents ls)"
proof -
  from assms have "trim (transcript (state c)) = [] \<or> category (state c) = []"
    by (simp add: trim_empty_iff)
  then have "saveIncident now nowISO c ls = (show_toast missing_information c, ls)"
    by (simp add: saveIncident_def Let_def)
  then show ?thesis by (simp add: show_toast_def)
qed


theorem saveIncident_rejects_witness:
  "saveIncident 1704276000000 ''2024-01-03T10:00:00.000Z'' scenarioD_page scenarioA_storage
     = (show_toast missing_information scenarioD_page, scenarioA_storage)
   \<and> length (stored_incidents
        (snd (saveIncident 1704276000000 ''2024-01-03T10:00:00.000Z'' scenarioD_page
           scenarioA_storage))) = 2"
proof -
  have ws: "(\<forall>ch\<in>set (transcript (state scenarioD_page)). is_ws ch)
            \<or> category (state scenarioD_page) = []"
    by (simp add: scenarioD_page_def mounted_def initialState_def is_ws_def)
  have "length (stored_incidents scenarioA_storage) = 2"
    by (simp add: stored_incidents_def scenarioA_storage_def scenarioA_store_def)
  with saveIncident_rejects [OF ws, of 1704276000000 "''2024-01-03T10:00:00.000Z''"
      scenarioA_storage]
  show ?thesis by simp
qed


text \<open>
  Claim C10. When \<^verbatim>\<open>saveIncident\<close> accepts, the stored list grows by one incident
  at its end. Its transcript is the trimmed transcript of the page: it neither begins
  nor ends with white space, and the page's transcript is that text between two runs
  of white space. Category, severity, location and people involved are those of the
  page, unchanged.
\<close>

theorem saveIncident_stores_trimmed:
  assumes "trim (transcript (state c)) \<noteq> []" and "category (state c) \<noteq> []"
  shows "\<exists>inc. stored_incidents (snd (saveIncident now nowISO c ls))
              = stored_incidents ls @ [inc]
         \<and> Incident.transcript inc = trim (transcript (state c))
         \<and> \<not> is_ws (hd (Incident.transcript inc))
         \<and> \<not> is_ws (last (Incident.transcript inc))
         \<and> (\<exists>pre post. transcript (state c) = pre @ Incident.transcript inc @ post
               \<and> (\<forall>ch\<in>set pre. is_ws ch) \<and> (\<forall>ch\<in>set post. is_ws ch))
         \<and> Incident.category inc = category (state c)
         \<and> Incident.severity inc = severity (state c)
         \<and> Incident.location inc = location (state c)
         \<and> Incident.peopleInvolved inc = peopleInvolved (state c)"
proof -
  let ?t = "trim (transcript (state c))"
  let ?inc = "\<lparr>id_str = toString now,
       Incident.timestamp = (if timestamp (state c) = [] then nowISO else timestamp (state c)),
       Incident.category = category (state c),
       Incident.severity = severity (state c),
       Incident.location = location (state c),
       Incident.transcript = ?t,
       Incident.peopleInvolved = peopleInvolved (state c)\<rparr>"
  have stored: "stored_incidents (snd (saveIncident now nowISO c ls)) = stored_incidents ls @ [?inc]"
    using assms by (simp add: saveIncident_def Let_def stored_incidents_def)
  have first: "\<not> is_ws (hd ?t)"
    using assms(1) by (rule trim_hd)
  have final: "\<not> is_ws (last ?t)"
    using assms(1) by (rule trim_last)
  have around: "\<exists>pre post. transcript (state c) = pre @ ?t @ post
               \<and> (\<forall>ch\<in>set pre. is_ws ch) \<and> (\<forall>ch\<in>set post. is_ws ch)"
    by (rule trim_decomp)
  show ?thesis
    apply (rule exI [of _ ?inc])
    using stored first final around by simp
qed

lemma trim_edited: "trim (transcript (state edited_page)) = ''he fell''"
  by (simp add: edited_page_def mounted_def initialState_def trim_def is_ws_def)

theorem saveIncident_stores_trimmed_witness:
  "\<exists>inc. stored_incidents
          (snd (saveIncident 1704276000000 ''2024-01-03T10:00:00.000Z'' edited_page
             scenarioA_storage)) = scenarioA_store @ [inc]
     \<and> Incident.transcript inc = ''he fell''
     \<and> Incident.category inc = ''Meltdown''
     \<and> Incident.severity inc = 4
     \<and> Incident.location inc = ''Location access denied''
     \<and> Incident.peopleInvolved inc = [''Child'']"
proof -
  have t: "trim (transcript (state edited_page)) \<noteq> []"
    by (simp add: trim_edited)
  have c: "category (state edited_page) \<noteq> []"
    by (simp add: edited_page_def mounted_def initialState_def)
  have s: "stored_incidents scenarioA_storage = scenarioA_store"
    by (simp add: stored_incidents_def scenarioA_storage_def)
  have f: "category (state edited_page) = ''Meltdown''"
    "severity (state edited_page) = 4"
    "location (state edited_page) = ''Location access denied''"
    "peopleInvolved (state edited_page) = [''Child'']"
    by (simp_all add: edited_page_def mounted_def initialState_def)
  from saveIncident_stores_trimmed [OF t c, of 1704276000000 "''2024-01-03T10:00:00.000Z''"
      scenarioA_storage]
  obtain inc where
    "stored_incidents
          (snd (saveIncident 1704276000000 ''2024-01-03T10:00:00.000Z'' edited_page
             scenarioA_storage)) = stored_incidents scenarioA_storage @ [inc]"
    "Incident.transcript inc = trim (transcript (state edited_page))"
    "Incident.category inc = category (state edited_page)"
    "Incident.severity inc = severity (state edited_page)"
    "Incident.location inc = location (state edited_page)"
    "Incident.peopleInvolved inc = peopleInvolved (state edited_page)"
    by blast
  then show ?thesis
    unfolding s trim_edited f by blast
qed

section \<open>Severity\<close>

text \<open>
  Claim C8. Take any state the browser can be brought to and a save that the page
  delivers there. The severity that reaches \<^verbatim>\<open>saveIncident\<close> is an integer from 1
  to 5, the save accepts, and the incident is appended with that severity. No other
  severity reaches the save: the state is written with 3 on mounting and on reset and
  otherwise by the slider, which delivers 1 to 5 only; so nothing is persisted with a
  severity outside the range. Each severity from 1 to 5 can be set there with the
  slider, and the save then stores the incident with it.
\<close>

theorem save_accepts_every_reachable_severity:
  assumes "reachable b"
    and "handle (ClickSave now nowISO) b = Some b'"
  shows "1 \<le> severity (state (page b)) \<and> severity (state (page b)) \<le> 5
     \<and> page b' = fst (saveIncident now nowISO (page b) (storage b))
     \<and> storage b' = snd (saveIncident now nowISO (page b) (storage b))
     \<and> stored_incidents (storage b') =
         stored_incidents (storage b) @
           [\<lparr>id_str = toString now,
             Incident.timestamp =
               (if timestamp (state (page b)) = [] then nowISO
                else timestamp (state (page b))),
             Incident.category = category (state (page b)),
             Incident.severity = severity (state (page b)),
             Incident.location = location (state (page b)),
             Incident.transcript = trim (transcript (state (page b))),
             Incident.peopleInvolved = peopleInvolved (state (page b))\<rparr>]
     \<and> (\<forall>s. 1 \<le> s \<and> s \<le> 5 \<longrightarrow>
           (\<exists>b1 b2. handle (SlideSeverity s) b = Some b1 \<and> reachable b1
              \<and> severity (state (page b1)) = s
              \<and> handle (ClickSave now nowISO) b1 = Some b2
              \<and> map Incident.severity (stored_incidents (storage b2))
                  = map Incident.severity (stored_incidents (storage b)) @ [s]))"
proof -
  from reachable_severity [OF assms(1)]
  have range: "1 \<le> severity (state (page b)) \<and> severity (state (page b)) \<le> 5" .
  from assms(2) have ok: "trim (transcript (state (page b))) \<noteq> []"
      "category (state (page b)) \<noteq> []" "\<not> isRecording (state (page b))"
    and b': "b' = b\<lparr>page := fst (saveIncident now nowISO (page b) (storage b)),
                   storage := snd (saveIncident now nowISO (page b) (storage b))\<rparr>"
    by (auto split: if_splits)
  from b' have p: "page b' = fst (saveIncident now nowISO (page b) (storage b))"
    and s: "storage b' = snd (saveIncident now nowISO (page b) (storage b))"
    by simp_all
  from ok have stored: "stored_incidents (snd (saveIncident now nowISO (page b) (storage b)))
      = stored_incidents (storage b) @
           [\<lparr>id_str = toString now,
             Incident.timestamp =
               (if timestamp (state (page b)) = [] then nowISO
                else timestamp (state (page b))),
             Incident.category = category (state (page b)),
             Incident.severity = severity (state (page b)),
             Incident.location = location (state (page b)),
             Incident.transcript = trim (transcript (state (page b))),
             Incident.peopleInvolved = peopleInvolved (state (page b))\<rparr>]"
    by (simp add: stored_after_save)
  have slide: "\<exists>b1 b2. handle (SlideSeverity v) b = Some b1 \<and> reachable b1
              \<and> severity (state (page b1)) = v
              \<and> handle (ClickSave now nowISO) b1 = Some b2
              \<and> map Incident.severity (stored_incidents (storage b2))
                  = map Incident.severity (stored_incidents (storage b)) @ [v]"
    if v: "1 \<le> v \<and> v \<le> 5" for v
  proof -
    let ?b1 = "b\<lparr>page := setState (\<lambda>prev. prev\<lparr>severity := v\<rparr>) (page b)\<rparr>"
    let ?b2 = "?b1\<lparr>page := fst (saveIncident now nowISO (page ?b1) (storage ?b1)),
                     storage := snd (saveIncident now nowISO (page ?b1) (storage ?b1))\<rparr>"
    from v have h1: "handle (SlideSeverity v) b = Some ?b1" by simp
    with assms(1) have r1: "reachable ?b1" by (rule reachable.step)
    have sev: "severity (state (page ?b1)) = v" by (simp add: setState_def)
    from ok have ok1: "trim (transcript (state (page ?b1))) \<noteq> []"
      "category (state (page ?b1)) \<noteq> []" "\<not> isRecording (state (page ?b1))"
      by (simp_all add: setState_def)
    then have h2: "handle (ClickSave now nowISO) ?b1 = Some ?b2" by simp
    from ok1 have "map Incident.severity (stored_incidents (storage ?b2))
        = map Incident.severity (stored_incidents (storage b)) @ [v]"
      by (simp add: stored_after_save setState_def)
    with h1 r1 sev h2 show ?thesis by blast
  qed
  have every: "\<forall>s. 1 \<le> s \<and> s \<le> 5 \<longrightarrow>
           (\<exists>b1 b2. handle (SlideSeverity s) b = Some b1 \<and> reachable b1
              \<and> severity (state (page b1)) = s
              \<and> handle (ClickSave now nowISO) b1 = Some b2
              \<and> map Incident.severity (stored_incidents (storage b2))
                  = map Incident.severity (stored_incidents (storage b)) @ [s])"
    by (intro allI impI) (rule slide)
  from stored s have stored': "stored_incidents (storage b') =
         stored_incidents (storage b) @
           [\<lparr>id_str = toString now,
             Incident.timestamp =
               (if timestamp (state (page b)) = [] then nowISO
                else timestamp (state (page b))),
             Incident.category = category (state (page b)),
             Incident.severity = severity (state (page b)),
             Incident.location = location (state (page b)),
             Incident.transcript = trim (transcript (state (page b))),
             Incident.peopleInvolved = peopleInvolved (state (page b))\<rparr>]"
    by simp
  from range have lo: "1 \<le> severity (state (page b))"
    and hi: "severity (state (page b)) \<le> 5" by simp_all
  from lo hi p s stored' every show ?thesis by (intro conjI)
qed

lemma run_filled_in:
  "run_events filled_in (opened True scenarioA_storage) = Some filled_browser"
  by (simp add: filled_in_def filled_browser_def setState_def categories_def opened_def
      mounted_def initialState_def)

lemma severities_scenarioA:
  "map Incident.severity (stored_incidents scenarioA_storage) = [2, 5]"
  by (simp add: stored_incidents_def scenarioA_storage_def scenarioA_store_def)

theorem save_accepts_every_reachable_severity_witness:
  "severity (state (page filled_browser)) = 4
   \<and> map_option (\<lambda>b. map Incident.severity (stored_incidents (storage b)))
       (handle (ClickSave 1704276000000 ''2024-01-03T10:00:00.000Z'') filled_browser)
     = Some [2, 5, 4]"
proof -
  let ?save = "ClickSave 1704276000000 ''2024-01-03T10:00:00.000Z''"
  have "reachable (opened True scenarioA_storage)" by (rule reachable.first)
  then have r: "reachable filled_browser"
    using run_filled_in by (rule reachable_run_events)
  have f: "trim (transcript (state (page filled_browser))) = ''t3''"
    "category (state (page filled_browser)) = ''Meltdown''"
    "severity (state (page filled_browser)) = 4"
    "\<not> isRecording (state (page filled_browser))"
    "storage filled_browser = scenarioA_storage"
    by (simp_all add: filled_browser_def opened_def mounted_def initialState_def trim_def
        is_ws_def)
  then obtain b' where h: "handle ?save filled_browser = Some b'" by simp
  note stored = save_accepts_every_reachable_severity [OF r h, THEN conjunct2,
      THEN conjunct2, THEN conjunct2, THEN conjunct2, THEN conjunct1]
  have "map Incident.severity (stored_incidents (storage b'))
      = map Incident.severity (stored_incidents scenarioA_storage) @ [4]"
    unfolding stored by (simp add: f)
  with h f(3) show ?thesis by (simp add: severities_scenarioA)
qed


section \<open>Incident ids\<close>

lemma ids_scenarioA:
  "map id_str (stored_incidents scenarioA_storage) = [''1704103200000'', ''1704189600000'']"
  by (simp add: stored_incidents_def scenarioA_storage_def scenarioA_store_def)

lemma edited_page_accepted:
  "trim (transcript (state edited_page)) \<noteq> []" "category (state edited_page) \<noteq> []"
  by (simp_all add: trim_edited) (simp add: edited_page_def mounted_def initialState_def)

lemma stored_after_import:
  "stored_incidents (snd (snd (importData (Some (Document d)) settings ls))) =
     (case incidents_field d of Truthy xs \<Rightarrow> xs | _ \<Rightarrow> stored_incidents ls)"
  by (simp add: importData_def Let_def stored_incidents_def split: field.split prod.split)

lemma stored_after_delete:
  "stored_incidents (fst (snd (deleteIncident i t ls))) =
     filter (\<lambda>incident. id_str incident \<noteq> i) (incidents t)"
  by (simp add: deleteIncident_def Let_def stored_incidents_def)

text \<open>
  Ids are not always distinct: a save at a clock reading whose rendering is already an
  id of the store repeats that id, and an import stores a document with a repeated id
  as it is.
\<close>

theorem ids_can_repeat:
  "\<not> distinct (map id_str (stored_incidents
        (snd (saveIncident 1704189600000 ''2024-01-02T10:00:00.000Z'' edited_page
           scenarioA_storage))))
   \<and> \<not> distinct (map id_str (stored_incidents
        (snd (snd (importData (Some (Document duplicate_backup)) Map.empty
           scenarioA_storage)))))"
proof -
  have "toString 1704189600000 = ''1704189600000''"
    by (simp add: toString.simps digit_char_def)
  then have "\<not> distinct (map id_str (stored_incidents
        (snd (saveIncident 1704189600000 ''2024-01-02T10:00:00.000Z'' edited_page
           scenarioA_storage))))"
    using edited_page_accepted by (simp add: stored_after_save ids_scenarioA)
  moreover have "\<not> distinct (map id_str (stored_incidents
        (snd (snd (importData (Some (Document duplicate_backup)) Map.empty
           scenarioA_storage)))))"
    by (simp add: stored_after_import duplicate_backup_def scenarioA_store_def)
  ultimately show ?thesis by simp
qed

text \<open>
  Claim C9, as the code has it. \<^verbatim>\<open>saveIncident\<close> takes the decimal rendering of the
  clock as the id and does not look at the store. From a store with pairwise distinct
  ids: a save leaves them distinct when the rendering of the clock is not yet an id of
  the store, and that is so when every stored id is the rendering of an earlier clock
  reading; \<^verbatim>\<open>deleteIncident\<close> on the loaded timeline leaves them distinct; and
  \<^verbatim>\<open>importData\<close> stores the incidents of the document unchanged and unchecked (or
  keeps the stored ones when the document has none).
\<close>

theorem ids_distinct_when_clock_is_fresh:
  assumes "distinct (map id_str (stored_incidents ls))"
  shows "(toString now \<notin> set (map id_str (stored_incidents ls)) \<longrightarrow>
            distinct (map id_str (stored_incidents (snd (saveIncident now nowISO c ls)))))
       \<and> ((\<forall>incident\<in>set (stored_incidents ls). \<exists>n<now. id_str incident = toString n) \<longrightarrow>
            toString now \<notin> set (map id_str (stored_incidents ls)))
       \<and> (incidents t = stored_incidents ls \<longrightarrow>
            distinct (map id_str (stored_incidents (fst (snd (deleteIncident i t ls))))))
       \<and> stored_incidents (snd (snd (importData (Some (Document d)) settings ls))) =
            (case incidents_field d of Truthy xs \<Rightarrow> xs | _ \<Rightarrow> stored_incidents ls)"
proof -
  have save: "distinct (map id_str (stored_incidents (snd (saveIncident now nowISO c ls))))"
    if "toString now \<notin> set (map id_str (stored_incidents ls))"
    using assms that by (simp add: stored_after_save)
  have fresh: "toString now \<notin> set (map id_str (stored_incidents ls))"
    if earlier: "\<forall>incident\<in>set (stored_incidents ls). \<exists>n<now. id_str incident = toString n"
  proof
    assume "toString now \<in> set (map id_str (stored_incidents ls))"
    then obtain incident where "incident \<in> set (stored_incidents ls)"
      and "id_str incident = toString now" by auto
    with earlier obtain n where "n < now" and "toString n = toString now" by metis
    then show False by (auto dest: toString_inj)
  qed
  have delete: "distinct (map id_str (stored_incidents (fst (snd (deleteIncident i t ls)))))"
    if "incidents t = stored_incidents ls"
    using assms that by (simp add: stored_after_delete distinct_map_filter)
  from save fresh delete show ?thesis
    by (simp only: stored_after_import) blast
qed

theorem ids_distinct_when_clock_is_fresh_witness:
  "distinct (map id_str (stored_incidents
      (snd (saveIncident 1704276000000 ''2024-01-03T10:00:00.000Z'' edited_page
         scenarioA_storage))))
   \<and> distinct (map id_str (stored_incidents
      (fst (snd (deleteIncident ''1704103200000''
         (loadIncidents scenarioA_storage empty_timeline) scenarioA_storage)))))"
proof -
  have d: "distinct (map id_str (stored_incidents scenarioA_storage))"
    by (simp add: ids_scenarioA)
  have "\<exists>n<1704276000000::nat. ''1704103200000'' = toString n"
    by (rule exI [of _ 1704103200000]) (simp add: toString.simps digit_char_def)
  moreover have "\<exists>n<1704276000000::nat. ''1704189600000'' = toString n"
    by (rule exI [of _ 1704189600000]) (simp add: toString.simps digit_char_def)
  ultimately have earlier: "\<forall>incident\<in>set (stored_incidents scenarioA_storage).
      \<exists>n<1704276000000. id_str incident = toString n"
    by (simp add: stored_incidents_def scenarioA_storage_def scenarioA_store_def)
  have loaded: "incidents (loadIncidents scenarioA_storage empty_timeline)
      = stored_incidents scenarioA_storage"
    by (simp add: loadIncidents_def stored_incidents_def scenarioA_storage_def)
  from ids_distinct_when_clock_is_fresh [OF d, of 1704276000000
      "''2024-01-03T10:00:00.000Z''" edited_page
      "loadIncidents scenarioA_storage empty_timeline" "''1704103200000''"]
    earlier loaded
  show ?thesis by blast
qed


section \<open>The entries of the paginated documents\<close>

lemma fontSize_ops [simp]:
  "fontSize (setFontSize n doc) = n"
  "fontSize (text_at s x y doc) = fontSize doc"
  "fontSize (lines_at ls x y doc) = fontSize doc"
  "fontSize (addPage doc) = fontSize doc"
  by (simp_all add: setFontSize_def text_at_def lines_at_def addPage_def)

lemma headings_ops [simp]:
  "headings n (setFontSize m doc) = headings n doc"
  "headings n (text_at s x y doc) = headings n doc @ (if fontSize doc = n then [s] else [])"
  "headings n (lines_at ls x y doc) = headings n doc"
  "headings n (addPage doc) = headings n doc"
  "headings n new_jsPDF = []"
  by (simp_all add: headings_def setFontSize_def text_at_def lines_at_def addPage_def
      new_jsPDF_def List.map_filter_def)

lemma transcripts_ops [simp]:
  "transcripts n (setFontSize m doc) = transcripts n doc"
  "transcripts n (text_at s x y doc) = transcripts n doc"
  "transcripts n (lines_at ls x y doc) =
     transcripts n doc @ (if fontSize doc = n then [ls] else [])"
  "transcripts n (addPage doc) = transcripts n doc"
  "transcripts n new_jsPDF = []"
  by (simp_all add: transcripts_def setFontSize_def text_at_def lines_at_def addPage_def
      new_jsPDF_def List.map_filter_def)

lemma court_entry_Some:
  assumes "format_iso env (Incident.timestamp incident) ''PPpp'' = Some date"
  shows "\<exists>y' doc'. court_entry env (index, incident) (y, doc) = Some (y', doc')
     \<and> headings 11 doc' = headings 11 doc @ [court_heading (index, incident)]
     \<and> transcripts 9 doc' =
         transcripts 9 doc @ [splitTextToSize env 9 (Incident.transcript incident) 160]"
  using assms by (simp add: court_entry_def Let_def court_heading_def split: prod.split)

lemma court_entry_None:
  assumes "format_iso env (Incident.timestamp incident) ''PPpp'' = None"
  shows "court_entry env (index, incident) (y, doc) = None"
  using assms by (simp add: court_entry_def Let_def split: prod.split)

lemma forEach_court_entry:
  assumes "\<forall>(index, incident)\<in>set xs. format_iso env (Incident.timestamp incident) ''PPpp'' \<noteq> None"
  shows "\<exists>y' doc'. forEach (court_entry env) xs (y, doc) = Some (y', doc')
     \<and> headings 11 doc' = headings 11 doc @ map court_heading xs
     \<and> transcripts 9 doc' =
         transcripts 9 doc @ map (\<lambda>(index, incident).
           splitTextToSize env 9 (Incident.transcript incident) 160) xs"
  using assms
proof (induction xs arbitrary: y doc)
  case Nil
  show ?case by simp
next
  case (Cons x xs)
  obtain index incident where x: "x = (index, incident)" by (cases x)
  with Cons.prems obtain date where
    "format_iso env (Incident.timestamp incident) ''PPpp'' = Some date" by auto
  from court_entry_Some [OF this, of index y doc] obtain y1 doc1 where
    e: "court_entry env (index, incident) (y, doc) = Some (y1, doc1)"
    and h: "headings 11 doc1 = headings 11 doc @ [court_heading (index, incident)]"
    and t: "transcripts 9 doc1 =
         transcripts 9 doc @ [splitTextToSize env 9 (Incident.transcript incident) 160]"
    by blast
  from Cons.prems have "\<forall>(index, incident)\<in>set xs.
      format_iso env (Incident.timestamp incident) ''PPpp'' \<noteq> None" by simp
  from Cons.IH [OF this, of y1 doc1] obtain y' doc' where
    "forEach (court_entry env) xs (y1, doc1) = Some (y', doc')"
    "headings 11 doc' = headings 11 doc1 @ map court_heading xs"
    "transcripts 9 doc' =
         transcripts 9 doc1 @ map (\<lambda>(index, incident).
           splitTextToSize env 9 (Incident.transcript incident) 160) xs"
    by blast
  with e h t x show ?case by simp
qed


lemma forEach_court_entry_result:
  assumes "forEach (court_entry env) xs (y, doc) = Some (y', doc')"
  shows "headings 11 doc' = headings 11 doc @ map court_heading xs
     \<and> transcripts 9 doc' =
         transcripts 9 doc @ map (\<lambda>(index, incident).
           splitTextToSize env 9 (Incident.transcript incident) 160) xs"
  using assms
proof (induction xs arbitrary: y doc)
  case Nil
  then show ?case by simp
next
  case (Cons x xs)
  obtain index incident where x: "x = (index, incident)" by (cases x)
  show ?case
  proof (cases "format_iso env (Incident.timestamp incident) ''PPpp''")
    case None
    with Cons.prems x show ?thesis by (simp add: court_entry_None)
  next
    case (Some date)
    from court_entry_Some [OF this, of index y doc] obtain y1 doc1 where
      e: "court_entry env (index, incident) (y, doc) = Some (y1, doc1)"
      and h: "headings 11 doc1 = headings 11 doc @ [court_heading (index, incident)]"
      and t: "transcripts 9 doc1 =
           transcripts 9 doc @ [splitTextToSize env 9 (Incident.transcript incident) 160]"
      by blast
    from Cons.prems x e have "forEach (court_entry env) xs (y1, doc1) = Some (y', doc')"
      by simp
    from Cons.IH [OF this] h t x show ?thesis by simp
  qed
qed

lemma forEach_court_entry_total:
  assumes "\<forall>incident\<in>set xs. format_iso env (Incident.timestamp incident) ''PPpp'' \<noteq> None"
  shows "forEach (court_entry env) (indexed xs) s \<noteq> None"
proof -
  from assms have "\<forall>(index, incident)\<in>set (indexed xs).
      format_iso env (Incident.timestamp incident) ''PPpp'' \<noteq> None"
    by (auto simp: indexed_def dest: set_zip_rightD)
  from forEach_court_entry [OF this, of "fst s" "snd s"] show ?thesis by auto
qed

lemma map_indexed: "map (\<lambda>(index, x). f x) (indexed xs) = map f xs"
proof -
  have "map (\<lambda>(index, x). f x) (indexed xs) = map f (map snd (indexed xs))"
    by (simp add: case_prod_beta comp_def)
  then show ?thesis by (simp add: indexed_def)
qed

lemma length_indexed [simp]: "length (indexed xs) = length xs"
  by (simp add: indexed_def)

lemma court_report_document:
  assumes fmt: "\<forall>incident\<in>set (take 10 (stored_incidents ls)).
            format_iso env (Incident.timestamp incident) ''PPpp'' \<noteq> None"
    and lib: "jspdf_loads env"
    and some: "stored_incidents ls \<noteq> []"
  shows "\<exists>name doc. generateCourtReport env rd ls = (report_generated, Some (name, doc))
     \<and> headings 11 doc = map court_heading (indexed (take 10 (stored_incidents ls)))
     \<and> transcripts 9 doc =
         map (\<lambda>incident. splitTextToSize env 9 (Incident.transcript incident) 160)
           (take 10 (stored_incidents ls))"
proof -
  let ?xs = "indexed (take 10 (stored_incidents ls))"
  have total: "forEach (court_entry env) ?xs s \<noteq> None" for s
    using fmt by (rule forEach_court_entry_total)
  have fold: "(case childfirst_incidents ls of None \<Rightarrow> [] | Some xs \<Rightarrow> xs) = stored_incidents ls"
    by (simp add: stored_incidents_def)
  show ?thesis
    unfolding generateCourtReport_def fold Let_def
    using lib some total
    by (auto split: option.split prod.split dest!: forEach_court_entry_result
        simp: map_indexed)
qed


lemma timeline_entry_Some:
  assumes "format_iso env (Incident.timestamp incident) ''PPpp'' = Some date"
  shows "\<exists>y' doc'. timeline_entry env (index, incident) (y, doc) = Some (y', doc')
     \<and> headings 14 doc' = headings 14 doc @ [timeline_heading (index, incident)]
     \<and> transcripts 9 doc' =
         transcripts 9 doc @ [splitTextToSize env 9 (Incident.transcript incident) 160]"
  using assms by (simp add: timeline_entry_def Let_def timeline_heading_def split: prod.split)

lemma timeline_entry_None:
  assumes "format_iso env (Incident.timestamp incident) ''PPpp'' = None"
  shows "timeline_entry env (index, incident) (y, doc) = None"
  using assms by (simp add: timeline_entry_def Let_def split: prod.split)

lemma forEach_timeline_entry_result:
  assumes "forEach (timeline_entry env) xs (y, doc) = Some (y', doc')"
  shows "headings 14 doc' = headings 14 doc @ map timeline_heading xs
     \<and> transcripts 9 doc' =
         transcripts 9 doc @ map (\<lambda>(index, incident).
           splitTextToSize env 9 (Incident.transcript incident) 160) xs"
  using assms
proof (induction xs arbitrary: y doc)
  case Nil
  then show ?case by simp
next
  case (Cons x xs)
  obtain index incident where x: "x = (index, incident)" by (cases x)
  show ?case
  proof (cases "format_iso env (Incident.timestamp incident) ''PPpp''")
    case None
    with Cons.prems x show ?thesis by (simp add: timeline_entry_None)
  next
    case (Some date)
    from timeline_entry_Some [OF this, of index y doc] obtain y1 doc1 where
      e: "timeline_entry env (index, incident) (y, doc) = Some (y1, doc1)"
      and h: "headings 14 doc1 = headings 14 doc @ [timeline_heading (index, incident)]"
      and t: "transcripts 9 doc1 =
           transcripts 9 doc @ [splitTextToSize env 9 (Incident.transcript incident) 160]"
      by blast
    from Cons.prems x e have "forEach (timeline_entry env) xs (y1, doc1) = Some (y', doc')"
      by simp
    from Cons.IH [OF this] h t x show ?thesis by simp
  qed
qed

lemma forEach_timeline_entry_total:
  assumes "\<forall>x\<in>set xs. format_iso env (Incident.timestamp (snd x)) ''PPpp'' \<noteq> None"
  shows "forEach (timeline_entry env) xs s \<noteq> None"
  using assms
proof (induction xs arbitrary: s)
  case Nil
  show ?case by simp
next
  case (Cons x xs)
  obtain index incident where x: "x = (index, incident)" by (cases x)
  obtain y doc where s: "s = (y, doc)" by (cases s)
  from Cons.prems x obtain date where
    "format_iso env (Incident.timestamp incident) ''PPpp'' = Some date" by auto
  from timeline_entry_Some [OF this, of index y doc] obtain s1 where
    "timeline_entry env (index, incident) (y, doc) = Some s1" by blast
  moreover from Cons have "forEach (timeline_entry env) xs s1 \<noteq> None" by simp
  ultimately show ?case using x s by simp
qed

lemma timeline_report_document:
  assumes fmt: "\<forall>incident\<in>set (filteredIncidents t).
            format_iso env (Incident.timestamp incident) ''PPpp'' \<noteq> None"
    and lib: "jspdf_loads env"
  shows "\<exists>name doc. exportToPDF env t = (export_successful_pdf, Some (name, doc))
     \<and> headings 14 doc = map timeline_heading (indexed (filteredIncidents t))
     \<and> transcripts 9 doc =
         map (\<lambda>incident. splitTextToSize env 9 (Incident.transcript incident) 160)
           (filteredIncidents t)"
proof -
  let ?xs = "indexed (filteredIncidents t)"
  from fmt have "\<forall>x\<in>set ?xs. format_iso env (Incident.timestamp (snd x)) ''PPpp'' \<noteq> None"
    by (auto simp: indexed_def dest: set_zip_rightD)
  then have total: "forEach (timeline_entry env) ?xs s \<noteq> None" for s
    by (rule forEach_timeline_entry_total)
  show ?thesis
    unfolding exportToPDF_def Let_def
    using lib total
    by (auto split: option.split prod.split dest!: forEach_timeline_entry_result
        simp: map_indexed)
qed

text \<open>
  Claim C4. Take a store of more than ten incidents and a timeline view, all of whose
  timestamps the date library can format, with the PDF library loaded. The court
  report is generated and has an entry for each of the first ten incidents of the
  store, in the order of the store, and for no other: its entry headings are those
  of the first ten, there are ten of them, and the transcripts drawn are theirs. The
  timeline report is generated and has an entry, heading and transcript, for every
  incident of the view it is given, in order.
\<close>

theorem court_report_first_ten_timeline_report_all:
  assumes "length (stored_incidents ls) > 10"
    and "\<forall>incident\<in>set (take 10 (stored_incidents ls)).
            format_iso env (Incident.timestamp incident) ''PPpp'' \<noteq> None"
    and "\<forall>incident\<in>set (filteredIncidents t).
            format_iso env (Incident.timestamp incident) ''PPpp'' \<noteq> None"
    and "jspdf_loads env"
  shows "(\<exists>name doc. generateCourtReport env rd ls = (report_generated, Some (name, doc))
          \<and> headings 11 doc = map court_heading (indexed (take 10 (stored_incidents ls)))
          \<and> length (headings 11 doc) = 10
          \<and> transcripts 9 doc =
              map (\<lambda>incident. splitTextToSize env 9 (Incident.transcript incident) 160)
                (take 10 (stored_incidents ls)))
       \<and> (\<exists>name doc. exportToPDF env t = (export_successful_pdf, Some (name, doc))
          \<and> headings 14 doc = map timeline_heading (indexed (filteredIncidents t))
          \<and> length (headings 14 doc) = length (filteredIncidents t)
          \<and> transcripts 9 doc =
              map (\<lambda>incident. splitTextToSize env 9 (Incident.transcript incident) 160)
                (filteredIncidents t))"
proof -
  from assms(1) have "stored_incidents ls \<noteq> []" by auto
  from court_report_document [OF assms(2) assms(4) this, of rd] obtain name doc where
    c: "generateCourtReport env rd ls = (report_generated, Some (name, doc))"
    "headings 11 doc = map court_heading (indexed (take 10 (stored_incidents ls)))"
    "transcripts 9 doc =
         map (\<lambda>incident. splitTextToSize env 9 (Incident.transcript incident) 160)
           (take 10 (stored_incidents ls))"
    by blast
  from c(2) assms(1) have "length (headings 11 doc) = 10" by simp
  with c have court: "\<exists>name doc.
      generateCourtReport env rd ls = (report_generated, Some (name, doc))
      \<and> headings 11 doc = map court_heading (indexed (take 10 (stored_incidents ls)))
      \<and> length (headings 11 doc) = 10
      \<and> transcripts 9 doc =
          map (\<lambda>incident. splitTextToSize env 9 (Incident.transcript incident) 160)
            (take 10 (stored_incidents ls))"
    by blast
  from timeline_report_document [OF assms(3) assms(4)] obtain name' doc' where
    t: "exportToPDF env t = (export_successful_pdf, Some (name', doc'))"
    "headings 14 doc' = map timeline_heading (indexed (filteredIncidents t))"
    "transcripts 9 doc' =
         map (\<lambda>incident. splitTextToSize env 9 (Incident.transcript incident) 160)
           (filteredIncidents t)"
    by blast
  from t(2) have "length (headings 14 doc') = length (filteredIncidents t)" by simp
  with t have "\<exists>name doc. exportToPDF env t = (export_successful_pdf, Some (name, doc))
          \<and> headings 14 doc = map timeline_heading (indexed (filteredIncidents t))
          \<and> length (headings 14 doc) = length (filteredIncidents t)
          \<and> transcripts 9 doc =
              map (\<lambda>incident. splitTextToSize env 9 (Incident.transcript incident) 160)
                (filteredIncidents t)"
    by blast
  with court show ?thesis by (rule conjI)
qed

lemma eleven_timestamps:
  "\<forall>incident\<in>set eleven_incidents. Incident.timestamp incident = ''2024-01-01T10:00:00Z''"
  by (auto simp: eleven_incidents_def)

lemma scenarioA_formats:
  "\<forall>incident\<in>set scenarioA_store. sample_format (Incident.timestamp incident) ''PPpp'' \<noteq> None"
  by (simp add: scenarioA_store_def sample_format_def)

theorem court_report_first_ten_timeline_report_all_witness:
  "(\<exists>name doc. generateCourtReport sample_env sample_report eleven_storage
                 = (report_generated, Some (name, doc))
          \<and> length (headings 11 doc) = 10
          \<and> transcripts 9 doc = map (\<lambda>k. [toString k]) [0..<10])
   \<and> (\<exists>name doc. exportToPDF sample_env scenarioA_timeline
                 = (export_successful_pdf, Some (name, doc))
          \<and> headings 14 doc = [''1. Meltdown'', ''2. Meltdown'']
          \<and> transcripts 9 doc = [[''t1''], [''t2'']])"
proof -
  have stored: "stored_incidents eleven_storage = eleven_incidents"
    by (simp add: stored_incidents_def eleven_storage_def)
  have n: "length (stored_incidents eleven_storage) > 10"
    by (simp add: stored eleven_incidents_def)
  have f: "\<forall>incident\<in>set (take 10 (stored_incidents eleven_storage)).
      format_iso sample_env (Incident.timestamp incident) ''PPpp'' \<noteq> None"
    using eleven_timestamps
    by (auto simp: stored sample_env_def sample_format_def dest!: in_set_takeD)
  have g: "\<forall>incident\<in>set (filteredIncidents scenarioA_timeline).
      format_iso sample_env (Incident.timestamp incident) ''PPpp'' \<noteq> None"
    using scenarioA_formats by (simp add: scenarioA_timeline_def sample_env_def)
  have l: "jspdf_loads sample_env" by (simp add: sample_env_def)
  have ten: "map (\<lambda>incident. splitTextToSize sample_env 9 (Incident.transcript incident) 160)
      (take 10 (stored_incidents eleven_storage)) = map (\<lambda>k. [toString k]) [0..<10]"
    by (simp add: stored eleven_incidents_def sample_env_def take_map)
  have two: "map timeline_heading (indexed (filteredIncidents scenarioA_timeline))
      = [''1. Meltdown'', ''2. Meltdown'']"
    "map (\<lambda>incident. splitTextToSize sample_env 9 (Incident.transcript incident) 160)
      (filteredIncidents scenarioA_timeline) = [[''t1''], [''t2'']]"
    by (simp_all add: scenarioA_timeline_def scenarioA_store_def indexed_def
        timeline_heading_def sample_env_def toString.simps digit_char_def upt_rec)
  from court_report_first_ten_timeline_report_all [OF n f g l, of sample_report]
  show ?thesis unfolding ten two by blast
qed

section \<open>The tabular export\<close>

lemma map_throwing_Some:
  "\<forall>x\<in>set xs. f x = Some (g x) \<Longrightarrow> map_throwing f xs = Some (map g xs)"
  by (induction xs) simp_all

lemma csv_unescape_other: "a \<noteq> CHR 0x22 \<Longrightarrow> csv_unescape (a # r) = a # csv_unescape r"
  by (cases r) simp_all

lemma csv_unescape_double_quotes: "csv_unescape (double_quotes s) = s"
  by (induction s) (simp_all add: double_quotes_def csv_unescape_other)

lemma split_nonempty: "split sep s \<noteq> []"
  by (induction s) (auto split: list.split)

lemma split_no_sep: "sep \<notin> set x \<Longrightarrow> split sep x = [x]"
  by (induction x) (auto split: list.split)

lemma split_append_sep: "sep \<notin> set x \<Longrightarrow> split sep (x @ sep # rest) = x # split sep rest"
  by (induction x) (auto split: list.split simp: split_nonempty)

lemma split_join:
  "xs \<noteq> [] \<Longrightarrow> \<forall>x\<in>set xs. sep \<notin> set x \<Longrightarrow> split sep (join [sep] xs) = xs"
proof (induction "[sep]" xs rule: join.induct)
  case 1
  then show ?case by simp
next
  case (2 x)
  then show ?case by (simp add: split_no_sep)
next
  case (3 x y ys)
  then show ?case by (simp add: split_append_sep)
qed

lemma set_join: "set (join sep xs) \<subseteq> set sep \<union> (\<Union>x\<in>set xs. set x)"
  by (induction sep xs rule: join.induct) auto

lemma set_toString: "set (toString n) \<subseteq> set ''0123456789''"
proof (induction n rule: toString.induct)
  case (1 n)
  have digit: "digit_char d \<in> set ''0123456789''" if "d < 10" for d
  proof -
    from that have "d < length ''0123456789''" by simp
    then show ?thesis unfolding digit_char_def by (rule nth_mem)
  qed
  show ?case
  proof (cases "n < 10")
    case True
    with digit [of n] show ?thesis by (simp add: toString.simps [of n])
  next
    case False
    with 1 digit [of "n mod 10"] show ?thesis by (simp add: toString.simps [of n])
  qed
qed

lemma newline_toString_int: "CHR 0x0A \<notin> set (toString_int i)"
  using set_toString [of "nat i"] set_toString [of "nat (- i)"]
  by (auto simp: toString_int_def)

lemma set_double_quotes: "set (double_quotes s) \<subseteq> set s \<union> {CHR 0x22}"
  by (induction s) (auto simp: double_quotes_def)

lemma newline_csv_line:
  assumes "single_line date incident"
  shows "CHR 0x0A \<notin> set (csv_line date incident)"
proof -
  have "CHR 0x0A \<notin> set (join ''; '' (Incident.peopleInvolved incident))"
    using assms set_join [of "''; ''" "Incident.peopleInvolved incident"]
    by (auto simp: single_line_def)
  moreover have "CHR 0x0A \<notin> set (double_quotes (Incident.transcript incident))"
    using assms set_double_quotes [of "Incident.transcript incident"]
    by (auto simp: single_line_def)
  ultimately show ?thesis
    using assms newline_toString_int [of "Incident.severity incident"]
    by (simp add: csv_line_def single_line_def)
qed

lemma exportToCSV_lines:
  assumes "\<forall>incident\<in>set (filteredIncidents t).
      format (Incident.timestamp incident) ''yyyy-MM-dd HH:mm:ss'' = Some (date incident)"
  shows "exportToCSV format t =
     Inr (join [CHR 0x0A]
       (''Date,Category,Severity,Location,People Involved,Transcript''
          # map (csv_line date) (filteredIncidents t)))"
proof -
  let ?row = "\<lambda>incident. [date incident, Incident.category incident,
       toString_int (Incident.severity incident), Incident.location incident,
       join ''; '' (Incident.peopleInvolved incident),
       [CHR 0x22] @ double_quotes (Incident.transcript incident) @ [CHR 0x22]]"
  from assms have "\<forall>incident\<in>set (filteredIncidents t).
      csv_row format incident = Some (?row incident)"
    by (simp add: csv_row_def)
  then have rows: "map_throwing (csv_row format) (filteredIncidents t)
      = Some (map ?row (filteredIncidents t))"
    by (rule map_throwing_Some)
  have header: "join '','' csv_headers
      = ''Date,Category,Severity,Location,People Involved,Transcript''"
    by (simp add: csv_headers_def)
  have lines: "map (join '','') (map ?row (filteredIncidents t))
      = map (csv_line date) (filteredIncidents t)"
    by (simp add: csv_line_def)
  show ?thesis
    unfolding exportToCSV_def rows option.case list.map header lines ..
qed

text \<open>
  Scenario B: the two incidents of scenario A give three lines, and the transcripts
  \<open>t1\<close> and \<open>t2\<close>, which hold neither a comma nor a quote, are quoted all the
  same.
\<close>

theorem exportToCSV_quotes_unasked:
  "exportToCSV sample_format scenarioA_timeline =
     Inr (''Date,Category,Severity,Location,People Involved,Transcript'' @ [CHR 0x0A]
          @ ''2024-01-01 10:00:00,Meltdown,2,,,'' @ [CHR 0x22] @ ''t1'' @ [CHR 0x22]
          @ [CHR 0x0A]
          @ ''2024-01-02 10:00:00,Meltdown,5,,Child,'' @ [CHR 0x22] @ ''t2'' @ [CHR 0x22])"
  by (simp add: exportToCSV_def scenarioA_timeline_def scenarioA_store_def csv_row_def
      sample_format_def csv_headers_def toString_int_def toString.simps digit_char_def
      double_quotes_def)

text \<open>
  Claim C3, as the code has it. When the date library formats every timestamp of the
  view, the file is the header row followed by one row for each incident, in order,
  joined by line breaks; a row is the date in the pattern \<^verbatim>\<open>yyyy-MM-dd HH:mm:ss\<close>,
  the category, the severity, the location, the people joined by \<^verbatim>\<open>; \<close> and the
  transcript, joined by commas. The transcript is always put between double quotes,
  with every quote inside doubled, whether or not it holds a comma or a quote; reading
  the doubled quotes back gives the transcript. When no field holds a line break the
  file has one line more than there are incidents.
\<close>

theorem exportToCSV_rows_and_quoting:
  assumes "\<forall>incident\<in>set (filteredIncidents t).
      format (Incident.timestamp incident) ''yyyy-MM-dd HH:mm:ss'' = Some (date incident)"
  shows "exportToCSV format t =
     Inr (join [CHR 0x0A]
       (''Date,Category,Severity,Location,People Involved,Transcript''
          # map (\<lambda>incident.
              join '','' [date incident, Incident.category incident,
                toString_int (Incident.severity incident), Incident.location incident,
                join ''; '' (Incident.peopleInvolved incident),
                [CHR 0x22] @ double_quotes (Incident.transcript incident) @ [CHR 0x22]])
              (filteredIncidents t)))
     \<and> (\<forall>incident\<in>set (filteredIncidents t).
          csv_unescape (double_quotes (Incident.transcript incident))
            = Incident.transcript incident)
     \<and> ((\<forall>incident\<in>set (filteredIncidents t). single_line date incident) \<longrightarrow>
          (\<exists>csv. exportToCSV format t = Inr csv
             \<and> length (split (CHR 0x0A) csv) = 1 + length (filteredIncidents t)))"
proof -
  let ?header = "''Date,Category,Severity,Location,People Involved,Transcript''"
  let ?lines = "?header # map (csv_line date) (filteredIncidents t)"
  have csv: "exportToCSV format t = Inr (join [CHR 0x0A] ?lines)"
    using assms by (rule exportToCSV_lines)
  have count: "length (split (CHR 0x0A) (join [CHR 0x0A] ?lines))
      = 1 + length (filteredIncidents t)"
    if "\<forall>incident\<in>set (filteredIncidents t). single_line date incident"
  proof -
    from that have "\<forall>x\<in>set ?lines. CHR 0x0A \<notin> set x"
      by (auto simp: newline_csv_line)
    then have "split (CHR 0x0A) (join [CHR 0x0A] ?lines) = ?lines"
      by (intro split_join) simp_all
    then show ?thesis by simp
  qed
  from csv count show ?thesis
    by (simp add: csv_unescape_double_quotes csv_line_def [abs_def])
qed

theorem exportToCSV_rows_and_quoting_witness:
  "exportToCSV sample_format scenarioA_timeline =
     Inr (join [CHR 0x0A]
       [''Date,Category,Severity,Location,People Involved,Transcript'',
        ''2024-01-01 10:00:00,Meltdown,2,,,'' @ [CHR 0x22] @ ''t1'' @ [CHR 0x22],
        ''2024-01-02 10:00:00,Meltdown,5,,Child,'' @ [CHR 0x22] @ ''t2'' @ [CHR 0x22]])
   \<and> (\<exists>csv. exportToCSV sample_format scenarioA_timeline = Inr csv
         \<and> length (split (CHR 0x0A) csv) = 3)"
proof -
  let ?date = "\<lambda>incident. the (sample_format (Incident.timestamp incident)
      ''yyyy-MM-dd HH:mm:ss'')"
  have f: "\<forall>incident\<in>set (filteredIncidents scenarioA_timeline).
      sample_format (Incident.timestamp incident) ''yyyy-MM-dd HH:mm:ss''
        = Some (?date incident)"
    by (simp add: scenarioA_timeline_def scenarioA_store_def sample_format_def)
  have l: "\<forall>incident\<in>set (filteredIncidents scenarioA_timeline). single_line ?date incident"
    by (simp add: scenarioA_timeline_def scenarioA_store_def sample_format_def
        single_line_def)
  have n: "length (filteredIncidents scenarioA_timeline) = 2"
    by (simp add: scenarioA_timeline_def scenarioA_store_def)
  have rows: "map (\<lambda>incident.
              join '','' [?date incident, Incident.category incident,
                toString_int (Incident.severity incident), Incident.location incident,
                join ''; '' (Incident.peopleInvolved incident),
                [CHR 0x22] @ double_quotes (Incident.transcript incident) @ [CHR 0x22]])
              (filteredIncidents scenarioA_timeline)
      = [''2024-01-01 10:00:00,Meltdown,2,,,'' @ [CHR 0x22] @ ''t1'' @ [CHR 0x22],
         ''2024-01-02 10:00:00,Meltdown,5,,Child,'' @ [CHR 0x22] @ ''t2'' @ [CHR 0x22]]"
    by (simp add: scenarioA_timeline_def scenarioA_store_def sample_format_def
        toString_int_def toString.simps digit_char_def double_quotes_def)
  from exportToCSV_rows_and_quoting
    [where t = scenarioA_timeline and format = sample_format and date = ?date, OF f] l n
  show ?thesis unfolding rows by simp
qed


section \<open>Exports of no incident\<close>

text \<open>
  Claim C5, as the code has it. With no incident in the view the tabular export is the
  header row alone, and the timeline report is generated (when the PDF library loads):
  a title, the date and the line "Total Incidents: 0", with no entry. The court report
  is not generated from an empty store, absent or empty: the page shows "No incidents
  found" and saves no file.
\<close>

theorem empty_exports:
  "exportToCSV format (t\<lparr>filteredIncidents := []\<rparr>)
     = Inr ''Date,Category,Severity,Location,People Involved,Transcript''
   \<and> exportToPDF env (t\<lparr>filteredIncidents := []\<rparr>)
     = (if jspdf_loads env
        then (export_successful_pdf,
              Some (''childfirst-timeline-report.pdf'',
                \<lparr>fontSize = 12,
                 ops = [Text 20 ''ChildFirst - Incident Timeline Report'' 20 20,
                        Text 12 (''Generated: '' @ format_today env ''PPP'') 20 35,
                        Text 12 ''Total Incidents: 0'' 20 45]\<rparr>))
        else (export_failed, None))
   \<and> generateCourtReport env rd (ls\<lparr>childfirst_incidents := None\<rparr>)
     = (no_incidents_found, None)
   \<and> generateCourtReport env rd (ls\<lparr>childfirst_incidents := Some []\<rparr>)
     = (no_incidents_found, None)"
  by (simp add: exportToCSV_def csv_headers_def exportToPDF_def indexed_def Let_def
      new_jsPDF_def setFontSize_def text_at_def toString.simps digit_char_def
      generateCourtReport_def)

text \<open>The court report on a store without incidents: no document.\<close>

theorem court_report_refuses_empty_store:
  "generateCourtReport sample_env sample_report empty_storage = (no_incidents_found, None)"
  by (simp add: generateCourtReport_def empty_storage_def)


section \<open>Restoring a backup\<close>

text \<open>
  A document with settings and without incidents is not refused: the toast is the one
  of success, and the stored settings, absent before, are those of the document.
\<close>

theorem import_without_incidents_succeeds:
  "fst (importData (Some (Document settings_only_backup)) Map.empty scenarioA_storage)
     = Some (data_imported 0)
   \<and> fst (importData (Some (Document settings_only_backup)) Map.empty scenarioA_storage)
     \<noteq> Some import_failed
   \<and> childfirst_settings scenarioA_storage = None
   \<and> childfirst_settings
       (snd (snd (importData (Some (Document settings_only_backup)) Map.empty
          scenarioA_storage))) = Some [''darkMode'' \<mapsto> ''true'']"
  by (simp add: importData_def settings_only_backup_def scenarioA_storage_def Let_def
      data_imported_def import_failed_def)

text \<open>
  Claim C6, as the code has it. \<^verbatim>\<open>importData\<close> replaces the stored incidents only
  when the document has an \<^verbatim>\<open>incidents\<close> field that counts as true, and otherwise
  keeps them; in the same way, and independently, it replaces the stored settings only
  when the document has such a \<^verbatim>\<open>settings\<close> field. A document without incidents is
  not refused: the import reports success, with the number of incidents imported (0
  when there are none). The import ends in "Import failed" only when the file is not
  JSON or is \<^verbatim>\<open>null\<close>, and then neither the storage nor the settings of the page
  change. The date of the last backup is never touched.
\<close>

theorem importData_replaces_what_the_document_has:
  "childfirst_incidents (snd (snd (importData (Some (Document d)) settings ls)))
     = (case incidents_field d of Truthy xs \<Rightarrow> Some xs | _ \<Rightarrow> childfirst_incidents ls)
   \<and> childfirst_settings (snd (snd (importData (Some (Document d)) settings ls)))
     = (case settings_field d of Truthy m \<Rightarrow> Some m | _ \<Rightarrow> childfirst_settings ls)
   \<and> childfirst_last_backup (snd (snd (importData (Some (Document d)) settings ls)))
     = childfirst_last_backup ls
   \<and> fst (importData (Some (Document d)) settings ls)
     = Some (data_imported (case incidents_field d of Truthy xs \<Rightarrow> length xs | _ \<Rightarrow> 0))
   \<and> importData (Some Unparsable) settings ls = (Some import_failed, settings, ls)
   \<and> importData (Some Null) settings ls = (Some import_failed, settings, ls)
   \<and> importData None settings ls = (None, settings, ls)"
  by (simp add: importData_def Let_def split: field.split prod.split)

section \<open>Starting a recording twice\<close>

text \<open>
  Claim C7 (a second start without a stop between is declined and leaves exactly one
  audio device active) fails on the code. \<^verbatim>\<open>startRecording\<close> has no guard of its
  own, and the round button, which calls \<^verbatim>\<open>stopRecording\<close> once \<open>isRecording\<close> is set, still
  calls \<^verbatim>\<open>startRecording\<close> while an earlier call waits for the microphone or the
  location. After two clicks and the answers to both calls the page is recording with
  two live streams, the recorder of the page is the one on the second stream, and the
  second call has ended in "Recording failed"; the click that stops the recording
  stops the second stream only, and the first stays live. The same holds of a start,
  a visit to another page and a second start, and of two calls of
  \<^verbatim>\<open>startRecording\<close> one after the other.
\<close>

theorem second_click_leaks_first_stream:
  "map_option (\<lambda>b. (isRecording (state (page b)), liveStreams (page b),
        mediaRecorderRef (page b), toasts (page b)))
     (run_events double_click (opened True empty_storage))
     = Some (True, [0, 1], Some \<lparr>rec_state = Capturing, stream = 1\<rparr>,
         [recording_started, recording_failed])
   \<and> map_option (\<lambda>b. (isRecording (state (page b)), liveStreams (page b)))
       (run_events (double_click @ [ClickRecord]) (opened True empty_storage))
     = Some (False, [0])
   \<and> map_option (\<lambda>b. (isRecording (state (page b)), liveStreams (page b)))
       (run_events leave_and_return (opened True empty_storage))
     = Some (True, [0, 2])
   \<and> map_option (\<lambda>b. (isRecording (state (page b)), liveStreams (page b)))
       (run_events (leave_and_return @ [ClickRecord]) (opened True empty_storage))
     = Some (False, [0])
   \<and> liveStreams (startRecording True ''Location access denied'' ''2024-01-03T10:00:00.100Z''
        (startRecording True ''Location access denied'' ''2024-01-03T10:00:00.000Z''
           (mounted True))) = [0, 2]"
  by (simp add: double_click_def leave_and_return_def opened_def mounted_def
      initialState_def after_getUserMedia_def after_getCurrentLocation_def setInterval_def
      show_toast_def stopRecording_def startRecording_def remount_def Let_def)

section \<open>The filtered view\<close>

lemma startsWith_iff: "startsWith s t \<longleftrightarrow> (\<exists>post. s = t @ post)"
  by (induction s t rule: startsWith.induct) auto

lemma includes_str_iff: "includes_str s t \<longleftrightarrow> is_substring t s"
proof (induction s)
  case Nil
  show ?case by (auto simp: is_substring_def)
next
  case (Cons x xs)
  have "is_substring t (x # xs) \<longleftrightarrow> (\<exists>post. x # xs = t @ post) \<or> is_substring t xs"
  proof
    assume "is_substring t (x # xs)"
    then obtain pre post where e: "x # xs = pre @ t @ post" by (auto simp: is_substring_def)
    show "(\<exists>post. x # xs = t @ post) \<or> is_substring t xs"
    proof (cases pre)
      case Nil
      with e show ?thesis by auto
    next
      case (Cons p ps)
      with e have "xs = ps @ t @ post" by simp
      then show ?thesis by (auto simp: is_substring_def)
    qed
  next
    assume "(\<exists>post. x # xs = t @ post) \<or> is_substring t xs"
    then show "is_substring t (x # xs)"
    proof
      assume "\<exists>post. x # xs = t @ post"
      then obtain post where "x # xs = [] @ t @ post" by auto
      then show ?thesis unfolding is_substring_def by blast
    next
      assume "is_substring t xs"
      then obtain pre post where "xs = pre @ t @ post" by (auto simp: is_substring_def)
      then have "x # xs = (x # pre) @ t @ post" by simp
      then show ?thesis unfolding is_substring_def by blast
    qed
  qed
  with Cons show ?case by (simp add: startsWith_iff)
qed

lemma of_char_lower_char:
  "(of_char (lower_char c) :: nat) = (if is_capital c then of_char c + 32 else of_char c)"
proof -
  have "(of_char c :: nat) < 256" by simp
  then show ?thesis
    by (auto simp: lower_char_def is_capital_def Let_def)
qed

lemma lower_char_eq_iff: "lower_char a = lower_char b \<longleftrightarrow> same_letter a b"
proof -
  have "lower_char a = lower_char b
      \<longleftrightarrow> (of_char (lower_char a) :: nat) = of_char (lower_char b)"
    by simp
  moreover have "a = b \<longleftrightarrow> (of_char a :: nat) = of_char b" by simp
  ultimately show ?thesis
    unfolding same_letter_def of_char_lower_char
    by (auto simp: is_capital_def)
qed

lemma map_lower_eq_iff:
  "map lower_char t = map lower_char r \<longleftrightarrow> list_all2 same_letter t r"
proof -
  have "list_all2 same_letter t r \<longleftrightarrow> list_all2 (\<lambda>a b. lower_char a = lower_char b) t r"
    by (simp add: lower_char_eq_iff [abs_def])
  also have "\<dots> \<longleftrightarrow> list_all2 (=) (map lower_char t) (map lower_char r)"
    by (simp add: list_all2_map1 list_all2_map2)
  also have "\<dots> \<longleftrightarrow> map lower_char t = map lower_char r"
    by (simp add: list.rel_eq)
  finally show ?thesis by simp
qed

lemma lowered_substring_iff:
  "is_substring (toLowerCase t) (toLowerCase s) \<longleftrightarrow> occurs_ignoring_case t s"
proof
  assume "is_substring (toLowerCase t) (toLowerCase s)"
  then obtain pre' post' where e: "map lower_char s = pre' @ map lower_char t @ post'"
    by (auto simp: is_substring_def toLowerCase_def)
  from e [unfolded map_eq_append_conv]
  obtain pre rest where s: "s = pre @ rest"
    and r: "map lower_char t @ post' = map lower_char rest"
    by blast
  from r [symmetric, unfolded map_eq_append_conv]
  obtain run post where rest: "rest = run @ post"
    and "map lower_char t = map lower_char run"
    by blast
  then have "list_all2 same_letter t run" by (simp add: map_lower_eq_iff)
  with s rest show "occurs_ignoring_case t s"
    unfolding occurs_ignoring_case_def by blast
next
  assume "occurs_ignoring_case t s"
  then obtain pre run post where s: "s = pre @ run @ post"
    and "list_all2 same_letter t run"
    unfolding occurs_ignoring_case_def by blast
  then have "map lower_char t = map lower_char run" by (simp add: map_lower_eq_iff)
  with s have "toLowerCase s = map lower_char pre @ toLowerCase t @ map lower_char post"
    by (simp add: toLowerCase_def)
  then show "is_substring (toLowerCase t) (toLowerCase s)"
    unfolding is_substring_def by blast
qed

lemma matches_search_code:
  "matches_search term incident \<longleftrightarrow>
     includes_str (toLowerCase (Incident.transcript incident)) (toLowerCase term)
     \<or> includes_str (toLowerCase (Incident.category incident)) (toLowerCase term)"
  by (simp add: matches_search_def includes_str_iff lowered_substring_iff)

lemma hyphen_toString: "CHR ''-'' \<notin> set (toString n)"
  using set_toString [of n] by auto

lemma split_band: "split (CHR ''-'') (toString lo @ ''-'' @ toString hi) = [toString lo, toString hi]"
  by (simp add: split_append_sep split_no_sep hyphen_toString)

lemma band_not_all: "toString lo @ ''-'' @ toString hi \<noteq> ''all''"
proof
  assume e: "toString lo @ ''-'' @ toString hi = ''all''"
  have "hd (toString lo) \<in> set (toString lo)" by (simp add: toString_nonempty)
  moreover from e have "hd (toString lo) = CHR ''a''"
    by (cases "toString lo") (simp_all add: toString_nonempty)
  ultimately show False using set_toString [of lo] by auto
qed

lemma mset_insert_sorted: "mset (insert_sorted cmp x ys) = add_mset x (mset ys)"
  by (induction ys) simp_all

lemma mset_array_sort: "mset (array_sort cmp xs) = mset xs"
  by (induction xs) (simp_all add: array_sort_def mset_insert_sorted)

lemma insert_sorted_insort_key:
  fixes k :: "'a \<Rightarrow> int"
  assumes "\<forall>y\<in>set ys. cmp x y = Some (k x - k y)"
  shows "insert_sorted cmp x ys = insort_key k x ys"
  using assms by (induction ys) simp_all

lemma array_sort_sort_key:
  fixes k :: "'a \<Rightarrow> int"
  assumes "\<forall>x\<in>set xs. \<forall>y\<in>set xs. cmp x y = Some (k x - k y)"
  shows "array_sort cmp xs = sort_key k xs"
  using assms
proof (induction xs)
  case Nil
  show ?case by (simp add: array_sort_def)
next
  case (Cons x xs)
  then have ih: "array_sort cmp xs = sort_key k xs" by simp
  from Cons.prems have "\<forall>y\<in>set (sort_key k xs). cmp x y = Some (k x - k y)" by simp
  then have "insert_sorted cmp x (sort_key k xs) = insort_key k x (sort_key k xs)"
    by (rule insert_sorted_insort_key)
  with ih show ?case by (simp add: array_sort_def sort_key_def)
qed

lemma search_step:
  "(if term \<noteq> []
    then filter (\<lambda>incident.
           includes_str (toLowerCase (Incident.transcript incident)) (toLowerCase term)
         \<or> includes_str (toLowerCase (Incident.category incident)) (toLowerCase term)) xs
    else xs) = filter (matches_search term) xs"
proof (cases "term = []")
  case True
  have "occurs_ignoring_case [] s" for s
    unfolding occurs_ignoring_case_def
    by (rule exI [of _ "[]"], rule exI [of _ "[]"], rule exI [of _ s]) simp
  then have "matches_search [] incident" for incident
    by (simp add: matches_search_def)
  with True show ?thesis by simp
next
  case False
  then show ?thesis by (simp add: matches_search_code [abs_def])
qed

lemma category_step:
  "(if cat \<noteq> ''all'' then filter (\<lambda>incident. Incident.category incident = cat) xs else xs)
     = filter (\<lambda>incident. cat = ''all'' \<or> Incident.category incident = cat) xs"
  by simp

lemma severity_step:
  assumes "reads_band Number band"
  shows "(if band_string band \<noteq> ''all''
    then filter (\<lambda>incident.
           ge_num (Incident.severity incident)
             (at_index (map Number (split (CHR ''-'') (band_string band))) 0)
         \<and> le_num (Incident.severity incident)
             (at_index (map Number (split (CHR ''-'') (band_string band))) 1)) xs
    else xs) = filter (\<lambda>incident. in_band band (Incident.severity incident)) xs"
proof (cases band)
  case AllSeverities
  then show ?thesis by simp
next
  case (Band lo hi)
  have "band_string (Band lo hi) \<noteq> ''all''" using band_not_all [of lo hi] by simp
  moreover have "map Number (split (CHR ''-'') (band_string (Band lo hi)))
      = [Finite (of_nat lo), Finite (of_nat hi)]"
    using split_band [of lo hi] assms Band by simp
  moreover have "(of_int a \<ge> (of_nat n :: rat)) \<longleftrightarrow> int n \<le> a" for a n
    by (metis of_int_le_iff of_int_of_nat_eq)
  moreover have "(of_int a \<le> (of_nat n :: rat)) \<longleftrightarrow> a \<le> int n" for a n
    by (metis of_int_le_iff of_int_of_nat_eq)
  ultimately show ?thesis
    using Band by (simp add: at_index_def)
qed

lemma filterIncidents_array_sort:
  assumes band: "severityFilter t = band_string band"
    and reads: "reads_band Number band"
  shows "filteredIncidents (filterIncidents Number getTime t) =
     array_sort (\<lambda>a b.
                if sortOrder t = newest
                then minus_num (getTime (Incident.timestamp b)) (getTime (Incident.timestamp a))
                else minus_num (getTime (Incident.timestamp a)) (getTime (Incident.timestamp b)))
       (filter (in_view (searchTerm t) (categoryFilter t) band) (incidents t))"
proof -
  let ?M = "filter (in_view (searchTerm t) (categoryFilter t) band) (incidents t)"
  have chain: "filter (\<lambda>incident. in_band band (Incident.severity incident))
       (filter (\<lambda>incident. categoryFilter t = ''all''
                  \<or> Incident.category incident = categoryFilter t)
          (filter (matches_search (searchTerm t)) (incidents t))) = ?M"
    by (simp add: in_view_def [abs_def] conj_commute conj_left_commute)
  show ?thesis
    unfolding filterIncidents_def Let_def band search_step category_step
      severity_step [OF reads] chain
    by simp
qed

lemma char_of_eq_literal: "char_of (n :: nat) = c \<longleftrightarrow> n mod 256 = of_char c"
proof
  assume "char_of n = c"
  then have "of_char (char_of n) = (of_char c :: nat)" by simp
  then show "n mod 256 = of_char c" by (simp add: of_char_of)
next
  assume "n mod 256 = of_char c"
  then have "char_of (n mod 256) = (char_of (of_char c :: nat) :: char)" by simp
  then show "char_of n = c" by simp
qed

lemma literal_eq_char_of: "c = char_of (n :: nat) \<longleftrightarrow> n mod 256 = of_char c"
  using char_of_eq_literal [of n c] by auto

lemma in_view_code:
  "in_view term cat band incident \<longleftrightarrow>
     (includes_str (toLowerCase (Incident.transcript incident)) (toLowerCase term)
      \<or> includes_str (toLowerCase (Incident.category incident)) (toLowerCase term))
     \<and> (cat = ''all'' \<or> Incident.category incident = cat)
     \<and> in_band band (Incident.severity incident)"
  by (simp add: in_view_def matches_search_code)

lemmas view_eval = in_view_code toLowerCase_def lower_char_def Let_def
  char_of_eq_literal literal_eq_char_of noise_store_def

lemma noise_matches:
  "filter (in_view ''nOIse'' ''Meltdown'' (Band 4 5)) noise_store
     = [noise_store ! 1, noise_store ! 2, noise_store ! 5]"
  by (simp add: view_eval)

lemma down_matches:
  "filter (in_view ''DOWN'' ''all'' AllSeverities) noise_store
     = [noise_store ! 0, noise_store ! 1, noise_store ! 2, noise_store ! 3, noise_store ! 5]"
  by (simp add: view_eval)

text \<open>
  Claim C2. Take any stored incidents, any search term, any category filter, either sort
  order, and any severity band, written as the select box writes it and read by the host
  as the two integers it is written from. The view that \<^verbatim>\<open>filterIncidents\<close> computes holds
  exactly the incidents that pass the three filters together, each as often as the store
  holds it: some run of consecutive characters of the transcript or of the category is
  the search term letter for letter, a capital and its small letter counting as one
  letter (the empty term occurs everywhere); the category is the one asked for unless
  "all" is asked for; and the severity lies in the band, ends included, unless the band
  is "all". The stored incidents of the timeline are left as they were. When the
  timestamps of the incidents that pass are dates, the view is ordered by falling time
  for "newest" and by rising time for "oldest", and incidents of one and the same time
  stand in the order in which the store holds them: the view is the stable sort of the
  passing incidents by that key.
\<close>

theorem filterIncidents_view:
  assumes band: "severityFilter t = band_string band"
    and reads: "reads_band Number band"
  shows "mset (filteredIncidents (filterIncidents Number getTime t))
       = mset (filter (in_view (searchTerm t) (categoryFilter t) band) (incidents t))
     \<and> incidents (filterIncidents Number getTime t) = incidents t
     \<and> ((\<forall>incident \<in> set (filter (in_view (searchTerm t) (categoryFilter t) band) (incidents t)).
            getTime (Incident.timestamp incident) = Some (time incident))
        \<longrightarrow> filteredIncidents (filterIncidents Number getTime t)
              = sort_key (\<lambda>incident. if sortOrder t = newest then - time incident
                                       else time incident)
                  (filter (in_view (searchTerm t) (categoryFilter t) band) (incidents t))
          \<and> (sortOrder t = newest \<longrightarrow>
               sorted_wrt (\<lambda>a b. time a \<ge> time b)
                 (filteredIncidents (filterIncidents Number getTime t)))
          \<and> (sortOrder t = oldest \<longrightarrow>
               sorted_wrt (\<lambda>a b. time a \<le> time b)
                 (filteredIncidents (filterIncidents Number getTime t)))
          \<and> (\<forall>ms. filter (\<lambda>incident. time incident = ms)
                      (filteredIncidents (filterIncidents Number getTime t))
                  = filter (\<lambda>incident. time incident = ms)
                      (filter (in_view (searchTerm t) (categoryFilter t) band) (incidents t))))"
proof -
  let ?M = "filter (in_view (searchTerm t) (categoryFilter t) band) (incidents t)"
  let ?k = "\<lambda>incident. if sortOrder t = newest then - time incident else time incident"
  let ?cmp = "\<lambda>a b.
                if sortOrder t = newest
                then minus_num (getTime (Incident.timestamp b)) (getTime (Incident.timestamp a))
                else minus_num (getTime (Incident.timestamp a)) (getTime (Incident.timestamp b))"
  let ?v = "filteredIncidents (filterIncidents Number getTime t)"
  have sorted_view: "?v = array_sort ?cmp ?M" using band reads by (rule filterIncidents_array_sort)
  have perm: "mset ?v = mset ?M" unfolding sorted_view by (rule mset_array_sort)
  have same: "incidents (filterIncidents Number getTime t) = incidents t"
    by (simp add: filterIncidents_def Let_def)
  have ordered: "?v = sort_key ?k ?M
      \<and> (sortOrder t = newest \<longrightarrow> sorted_wrt (\<lambda>a b. time a \<ge> time b) ?v)
      \<and> (sortOrder t = oldest \<longrightarrow> sorted_wrt (\<lambda>a b. time a \<le> time b) ?v)
      \<and> (\<forall>ms. filter (\<lambda>incident. time incident = ms) ?v
             = filter (\<lambda>incident. time incident = ms) ?M)"
    if valid: "\<forall>incident \<in> set ?M. getTime (Incident.timestamp incident) = Some (time incident)"
  proof -
    have "\<forall>x\<in>set ?M. \<forall>y\<in>set ?M. ?cmp x y = Some (?k x - ?k y)"
      using valid by (simp add: minus_num_def)
    then have "array_sort ?cmp ?M = sort_key ?k ?M"
      by (rule array_sort_sort_key)
    with sorted_view have v: "?v = sort_key ?k ?M" by simp
    have sorted: "sorted (map ?k ?v)" unfolding v by (rule sorted_sort_key)
    have new: "sortOrder t = newest \<longrightarrow> sorted_wrt (\<lambda>a b. time a \<ge> time b) ?v"
    proof
      assume "sortOrder t = newest"
      with sorted show "sorted_wrt (\<lambda>a b. time a \<ge> time b) ?v" by (simp add: sorted_map)
    qed
    have old: "sortOrder t = oldest \<longrightarrow> sorted_wrt (\<lambda>a b. time a \<le> time b) ?v"
    proof
      assume "sortOrder t = oldest"
      with sorted show "sorted_wrt (\<lambda>a b. time a \<le> time b) ?v" by (simp add: sorted_map)
    qed
    have stable: "filter (\<lambda>incident. time incident = ms) ?v
        = filter (\<lambda>incident. time incident = ms) ?M" for ms
    proof (cases "sortOrder t")
      case newest
      have "filter (\<lambda>incident. ?k incident = - ms) (sort_key ?k ?M)
          = filter (\<lambda>incident. ?k incident = - ms) ?M"
        by (rule sort_key_stable)
      with newest show ?thesis by (simp add: v)
    next
      case oldest
      have "filter (\<lambda>incident. ?k incident = ms) (sort_key ?k ?M)
          = filter (\<lambda>incident. ?k incident = ms) ?M"
        by (rule sort_key_stable)
      with oldest show ?thesis by (simp add: v)
    qed
    then have "\<forall>ms. filter (\<lambda>incident. time incident = ms) ?v
        = filter (\<lambda>incident. time incident = ms) ?M" by (rule allI)
    with v new old show ?thesis by (intro conjI)
  qed
  then have "(\<forall>incident \<in> set ?M. getTime (Incident.timestamp incident) = Some (time incident))
     \<longrightarrow> ?v = sort_key ?k ?M
      \<and> (sortOrder t = newest \<longrightarrow> sorted_wrt (\<lambda>a b. time a \<ge> time b) ?v)
      \<and> (sortOrder t = oldest \<longrightarrow> sorted_wrt (\<lambda>a b. time a \<le> time b) ?v)
      \<and> (\<forall>ms. filter (\<lambda>incident. time incident = ms) ?v
             = filter (\<lambda>incident. time incident = ms) ?M)"
    by (rule impI)
  with perm same show ?thesis by (intro conjI)
qed

theorem filterIncidents_view_witness:
  "map id_str (filteredIncidents (filterIncidents sample_Number sample_getTime (noise_view newest)))
     = [''1704276000001'', ''1704189600000'', ''1704189600001'']
   \<and> map id_str (filteredIncidents (filterIncidents sample_Number sample_getTime (noise_view oldest)))
     = [''1704189600000'', ''1704189600001'', ''1704276000001'']
   \<and> map id_str (filteredIncidents (filterIncidents sample_Number sample_getTime down_view))
     = [''1704276000000'', ''1704276000001'', ''1704189600000'', ''1704189600001'',
        ''1704103200000'']
   \<and> map id_str (filter (in_view ''nOIse'' ''Meltdown'' (Band 4 5)) noise_store)
     = [''1704189600000'', ''1704189600001'', ''1704276000001'']
   \<and> map id_str (filter (in_view ''DOWN'' ''all'' AllSeverities) noise_store)
     = [''1704103200000'', ''1704189600000'', ''1704189600001'', ''1704276000000'',
        ''1704276000001'']
   \<and> incidents (filterIncidents sample_Number sample_getTime (noise_view newest)) = noise_store"
proof -
  let ?time = "\<lambda>incident. the (sample_getTime (Incident.timestamp incident))"
  let ?N = "[noise_store ! 1, noise_store ! 2, noise_store ! 5]"
  let ?D = "[noise_store ! 0, noise_store ! 1, noise_store ! 2, noise_store ! 3, noise_store ! 5]"
  have band: "severityFilter (noise_view order) = band_string (Band 4 5)" for order
    by (simp add: noise_view_def toString.simps digit_char_def)
  have reads: "reads_band sample_Number (Band 4 5)"
    by (simp add: sample_Number_def toString.simps digit_char_def)
  have N: "filter (in_view (searchTerm (noise_view order)) (categoryFilter (noise_view order))
        (Band 4 5)) (incidents (noise_view order)) = ?N" for order
    by (simp add: noise_view_def noise_matches)
  have validN: "\<forall>incident\<in>set ?N.
      sample_getTime (Incident.timestamp incident) = Some (?time incident)"
    by (simp add: noise_store_def sample_getTime_def)
  have all: "severityFilter down_view = band_string AllSeverities"
    by (simp add: down_view_def)
  have reads_all: "reads_band sample_Number AllSeverities" by simp
  have D: "filter (in_view (searchTerm down_view) (categoryFilter down_view)
        AllSeverities) (incidents down_view) = ?D"
    by (simp add: down_view_def down_matches)
  have validD: "\<forall>incident\<in>set ?D.
      sample_getTime (Incident.timestamp incident) = Some (?time incident)"
    by (simp add: noise_store_def sample_getTime_def)
  note view = filterIncidents_view [where Number = sample_Number and getTime = sample_getTime
      and time = ?time]
  note newest_view = view [where t = "noise_view newest" and band = "Band 4 5",
      OF band reads, unfolded N]
  note oldest_view = view [where t = "noise_view oldest" and band = "Band 4 5",
      OF band reads, unfolded N]
  note newest_down = view [where t = down_view and band = AllSeverities,
      OF all reads_all, unfolded D]
  from newest_view [THEN conjunct2, THEN conjunct2, THEN mp, OF validN, THEN conjunct1]
  have 1: "map id_str (filteredIncidents
        (filterIncidents sample_Number sample_getTime (noise_view newest)))
      = [''1704276000001'', ''1704189600000'', ''1704189600001'']"
    by (simp add: noise_view_def noise_store_def sample_getTime_def)
  from oldest_view [THEN conjunct2, THEN conjunct2, THEN mp, OF validN, THEN conjunct1]
  have 2: "map id_str (filteredIncidents
        (filterIncidents sample_Number sample_getTime (noise_view oldest)))
      = [''1704189600000'', ''1704189600001'', ''1704276000001'']"
    by (simp add: noise_view_def noise_store_def sample_getTime_def)
  from newest_down [THEN conjunct2, THEN conjunct2, THEN mp, OF validD, THEN conjunct1]
  have 3: "map id_str (filteredIncidents
        (filterIncidents sample_Number sample_getTime down_view))
      = [''1704276000000'', ''1704276000001'', ''1704189600000'', ''1704189600001'',
         ''1704103200000'']"
    by (simp add: down_view_def noise_store_def sample_getTime_def)
  have 4: "map id_str (filter (in_view ''nOIse'' ''Meltdown'' (Band 4 5)) noise_store)
      = [''1704189600000'', ''1704189600001'', ''1704276000001'']"
    unfolding noise_matches by (simp add: noise_store_def)
  have 5: "map id_str (filter (in_view ''DOWN'' ''all'' AllSeverities) noise_store)
      = [''1704103200000'', ''1704189600000'', ''1704189600001'', ''1704276000000'',
         ''1704276000001'']"
    unfolding down_matches by (simp add: noise_store_def)
  from newest_view [THEN conjunct2, THEN conjunct1]
  have 6: "incidents (filterIncidents sample_Number sample_getTime (noise_view newest))
      = noise_store"
    by (simp add: noise_view_def)
  from 1 2 3 4 5 6 show ?thesis by (intro conjI)
qed

end
